theory Spec2Isabelle
  imports Main "HOL-Library.Sublist"
begin

section \<open>The pod execution agent of HPK: data model\<close>

text \<open>
  The agent is the Go program \<^verbatim>\<open>package main\<close> with the functions \<^verbatim>\<open>getPodDetails\<close>,
  \<^verbatim>\<open>fileExists\<close>, \<^verbatim>\<open>main\<close>, \<^verbatim>\<open>prepareContainers\<close>, \<^verbatim>\<open>prepareDNS\<close>, \<^verbatim>\<open>announceIP\<close>,
  \<^verbatim>\<open>cleanEnvironment\<close>, \<^verbatim>\<open>handleInitContainers\<close> and \<^verbatim>\<open>handleContainers\<close>.

  A Go slice is either \<^verbatim>\<open>nil\<close> or a (possibly empty) sequence; the program compares
  \<^verbatim>\<open>container.Command\<close> with \<^verbatim>\<open>nil\<close>, so the difference is kept: \<open>None\<close> is \<^verbatim>\<open>nil\<close>.
\<close>

type_synonym 'a slice = "'a list option"

definition elems :: "'a slice \<Rightarrow> 'a list" where
  "elems s = (case s of None \<Rightarrow> [] | Some xs \<Rightarrow> xs)"

record VolumeMount =
  vmName :: string
  vmMountPath :: string
  vmReadOnly :: bool

record Container =
  cName :: string
  cImage :: string
  cCommand :: "string slice"
  cArgs :: "string slice"
  cVolumeMounts :: "VolumeMount list"

record Pod =
  podNamespace :: string
  podName :: string
  InitContainers :: "Container list"
  Containers :: "Container list"

text \<open>
  Functions the program calls in packages that are not part of the sources at hand
  (\<^verbatim>\<open>endpoint\<close>, \<^verbatim>\<open>image\<close>, \<^verbatim>\<open>podhandler\<close>) and the library function \<^verbatim>\<open>filepath.Join\<close>
  are parameters of the model. The paths are those of
  \<^verbatim>\<open>endpoint.HPK(pod.Annotations["workingDirectory"]).Pod(podKey)\<close>, so they depend on the
  pod; the container paths also on the container's name. \<open>EffectiveRunAsUser\<close> stands for
  \<^verbatim>\<open>DetermineEffectiveRunAsUser(DetermineEffectiveSecurityContext(pod, &container))\<close>.
\<close>

record externals =
  EffectiveRunAsUser :: "Pod \<Rightarrow> Container \<Rightarrow> int \<times> int"
  EnvFilePath :: "Pod \<Rightarrow> string \<Rightarrow> string"
  IDPath :: "Pod \<Rightarrow> string \<Rightarrow> string"
  LogsPath :: "Pod \<Rightarrow> string \<Rightarrow> string"
  ExitCodePath :: "Pod \<Rightarrow> string \<Rightarrow> string"
  VolumeDir :: "Pod \<Rightarrow> string"
  IPAddressPath :: "Pod \<Rightarrow> string"
  ImageDir :: "Pod \<Rightarrow> string"
  ParseImageName :: "string \<Rightarrow> string"
  filepath_Join :: "string \<Rightarrow> string \<Rightarrow> string"

section \<open>Strings\<close>

text \<open>\<^verbatim>\<open>%d\<close> of \<^verbatim>\<open>fmt.Sprintf\<close> and \<^verbatim>\<open>strconv.Itoa\<close>: decimal digits, a minus sign first.\<close>

fun digits :: "nat \<Rightarrow> string" where
  "digits n = (if n < 10 then [''0123456789'' ! n]
               else digits (n div 10) @ [''0123456789'' ! (n mod 10)])"

declare digits.simps [simp del]

definition Itoa :: "int \<Rightarrow> string" where
  "Itoa i = (if i < 0 then CHR ''-'' # digits (nat (- i)) else digits (nat i))"

text \<open>\<^verbatim>\<open>strings.Join(elems, sep)\<close>.\<close>

fun Join :: "string list \<Rightarrow> string \<Rightarrow> string" where
  "Join [] sep = []"
| "Join [x] sep = x"
| "Join (x # y # ys) sep = x @ sep @ Join (y # ys) sep"

section \<open>The argument vector of the runtime\<close>

text \<open>
  \<^verbatim>\<open>executionMode := "exec"; if container.Command == nil { executionMode = "run" }\<close>
\<close>

definition executionMode :: "Container \<Rightarrow> string" where
  "executionMode c = (if cCommand c = None then ''run'' else ''exec'')"

text \<open>
  The loop over \<^verbatim>\<open>container.VolumeMounts\<close> fills \<^verbatim>\<open>binds[i]\<close> with
  \<^verbatim>\<open>hostPath + ":" + mount.MountPath + ":" + accessMode\<close>, where \<^verbatim>\<open>hostPath\<close> is
  \<^verbatim>\<open>filepath.Join(podPath.VolumeDir(), mount.Name)\<close>.
\<close>

definition accessMode :: "VolumeMount \<Rightarrow> string" where
  "accessMode m = (if vmReadOnly m then ''ro'' else ''rw'')"

definition bindOf :: "externals \<Rightarrow> Pod \<Rightarrow> VolumeMount \<Rightarrow> string" where
  "bindOf ext pod m =
     filepath_Join ext (VolumeDir ext pod) (vmName m) @ '':'' @ vmMountPath m @ '':'' @ accessMode m"

definition bindsOf :: "externals \<Rightarrow> Pod \<Rightarrow> Container \<Rightarrow> string list" where
  "bindsOf ext pod c = map (bindOf ext pod) (cVolumeMounts c)"

definition instanceName :: "Pod \<Rightarrow> Container \<Rightarrow> string" where
  "instanceName pod c = podNamespace pod @ ''_'' @ podName pod @ ''_'' @ cName c"

definition envFileName :: "externals \<Rightarrow> Pod \<Rightarrow> Container \<Rightarrow> string" where
  "envFileName ext pod c = filepath_Join ext ''/scratch'' (instanceName pod c @ ''.env'')"

definition apptainerVerbosity :: "bool \<Rightarrow> string" where
  "apptainerVerbosity isDebug = (if isDebug then ''--debug'' else ''--quiet'')"

definition dnsBind :: string where
  "dnsBind = ''/scratch/etc/resolv.conf:/etc/resolv.conf,/scratch/etc/hosts:/etc/hosts''"

text \<open>
  \<^verbatim>\<open>bindArgs := &apptainerArgs[len(apptainerArgs)-1]; *bindArgs += s\<close>: the last element
  of the vector is overwritten in place. The vector is never empty where this runs.
\<close>

definition appendToLast :: "string list \<Rightarrow> string \<Rightarrow> string list" where
  "appendToLast args s = args[length args - 1 := args ! (length args - 1) @ s]"

definition initialArgs :: "bool \<Rightarrow> Container \<Rightarrow> string list" where
  "initialArgs isDebug c =
     [apptainerVerbosity isDebug, executionMode c, ''--cleanenv'', ''--writable-tmpfs'',
      ''--no-mount'', ''home'', ''--unsquash'']"

text \<open>The two \<^verbatim>\<open>if\<close> statements on \<^verbatim>\<open>uid\<close> and \<^verbatim>\<open>gid\<close>, the same in both functions.\<close>

definition appendSecurity :: "int \<Rightarrow> int \<Rightarrow> string list \<Rightarrow> string list" where
  "appendSecurity uid gid args =
     (let a1 = (if uid \<noteq> 0
                then args @ [''--security'', ''uid:'' @ Itoa uid @ '',gid:'' @ Itoa uid, ''--userns'']
                else args);
          a2 = (if gid \<noteq> 0
                then a1 @ [''--security'', ''gid:'' @ Itoa gid, ''--userns'']
                else a1)
      in a2)"

text \<open>
  The statements after the security flags, the same in both functions: the env-file
  option when the second \<^verbatim>\<open>fileExists(envFilePath)\<close> is true, the image, the command and
  the arguments.
\<close>

definition appendRest :: "externals \<Rightarrow> Pod \<Rightarrow> Container \<Rightarrow> bool \<Rightarrow> string list \<Rightarrow> string list" where
  "appendRest ext pod c envFileExists args =
     (let a1 = (if envFileExists then args @ [''--env-file'', envFileName ext pod c] else args);
          a2 = a1 @ [ImageDir ext pod @ ParseImageName ext (cImage c)];
          a3 = a2 @ elems (cCommand c);
          a4 = a3 @ elems (cArgs c)
      in a4)"

text \<open>The vector built by \<^verbatim>\<open>handleInitContainers\<close> for one container.\<close>

definition initApptainerArgs ::
  "externals \<Rightarrow> bool \<Rightarrow> bool \<Rightarrow> Pod \<Rightarrow> Container \<Rightarrow> bool \<Rightarrow> string list" where
  "initApptainerArgs ext isDebug hpkEnv pod c envFileExists =
     (let (uid, gid) = EffectiveRunAsUser ext pod c;
          binds = bindsOf ext pod c;
          a0 = initialArgs isDebug c;
          a1 = (if hpkEnv then a0 @ [''--bind'', dnsBind] else a0);
          a2 = (if length binds > 0 then appendToLast a1 ('','' @ Join binds '','') else a1)
      in appendRest ext pod c envFileExists (appendSecurity uid gid a2))"

text \<open>The vector built by \<^verbatim>\<open>handleContainers\<close> for one container.\<close>

definition mainApptainerArgs ::
  "externals \<Rightarrow> bool \<Rightarrow> bool \<Rightarrow> Pod \<Rightarrow> Container \<Rightarrow> bool \<Rightarrow> string list" where
  "mainApptainerArgs ext isDebug hpkEnv pod c envFileExists =
     (let (uid, gid) = EffectiveRunAsUser ext pod c;
          binds = bindsOf ext pod c;
          a0 = initialArgs isDebug c;
          a2 = (if hpkEnv
                then (let a1 = a0 @ [''--bind'', dnsBind]
                      in if length binds > 0 then appendToLast a1 ('','' @ Join binds '','') else a1)
                else a0)
      in appendRest ext pod c envFileExists (appendSecurity uid gid a2))"

section \<open>The operating system and the cluster API\<close>

text \<open>
  What the program observes of its surroundings is a record of oracles. Each file-system
  and process oracle is given the events so far, so that two calls with the same
  arguments may be answered differently.
\<close>

datatype stat_result =
    FileInfo bool     \<comment> \<open>\<^verbatim>\<open>err == nil\<close>; the flag is \<^verbatim>\<open>info.IsDir()\<close>\<close>
  | StatError bool    \<comment> \<open>\<^verbatim>\<open>err != nil\<close>; the flag is \<^verbatim>\<open>os.IsNotExist(err)\<close>\<close>

datatype addr =
    IPNet bool bool string   \<comment> \<open>\<^verbatim>\<open>IP.IsLoopback()\<close>, \<^verbatim>\<open>IP.To4() != nil\<close>, \<^verbatim>\<open>IP.String()\<close>\<close>
  | OtherAddr

datatype file_kind = EnvFile | IdFile | ExitCodeFile | ResolvConf | HostsFile | IPFile

datatype event =
    EvStat string                        \<comment> \<open>\<^verbatim>\<open>os.Stat(path)\<close>\<close>
  | EvSh string                          \<comment> \<open>\<^verbatim>\<open>sh -c path\<close> was run\<close>
  | EvMkdirAll string
  | EvWriteFile file_kind string string  \<comment> \<open>a successful \<^verbatim>\<open>os.WriteFile(path, content)\<close>\<close>
  | EvCreate string                      \<comment> \<open>a successful \<^verbatim>\<open>os.Create(path)\<close>\<close>
  | EvUnsetenv string
  | EvStart string "string list"         \<comment> \<open>the child of this container was started with these arguments\<close>
  | EvExit string int                    \<comment> \<open>the child of this container terminated with this exit code\<close>
  | EvGo string "string list"            \<comment> \<open>the \<^verbatim>\<open>go\<close> statement for this main container\<close>

record world =
  getenv :: "string \<Rightarrow> string"
  getpid :: int
  stat :: "event list \<Rightarrow> string \<Rightarrow> stat_result"
  shCombinedOutput :: "event list \<Rightarrow> string \<Rightarrow> string option"
  writeFileOk :: "event list \<Rightarrow> string \<Rightarrow> bool"
  createOk :: "event list \<Rightarrow> string \<Rightarrow> bool"
  mkdirAllOk :: "event list \<Rightarrow> string \<Rightarrow> bool"
  unsetenvOk :: "event list \<Rightarrow> string \<Rightarrow> bool"
  hostname :: "event list \<Rightarrow> string option"
  interfaceAddrs :: "event list \<Rightarrow> addr list option"
  startChild :: "event list \<Rightarrow> string list \<Rightarrow> (int \<times> int) option"
  kubeconfigOk :: bool
  clientsetOk :: bool
  podsGet :: "nat \<Rightarrow> nat \<times> Pod option"

text \<open>
  \<^item> \<open>getenv\<close> is \<^verbatim>\<open>os.Getenv\<close>: the empty string for a variable that is not set. The
    two variables the program reads, \<^verbatim>\<open>KUBEDNS_IP\<close> and \<^verbatim>\<open>DEBUG_MODE\<close>, are not among
    those it unsets.
  \<^item> \<open>shCombinedOutput\<close> is \<^verbatim>\<open>exec.Command("sh", "-c", path).CombinedOutput()\<close>: \<open>None\<close>
    when the error is not nil.
  \<^item> \<open>startChild t argv\<close> is the fate of \<^verbatim>\<open>exec.Command(argv...)\<close>: \<open>None\<close> when the
    process cannot be started (\<^verbatim>\<open>cmd.Start\<close> fails and \<^verbatim>\<open>cmd.Process\<close> stays nil),
    \<open>Some (pid, code)\<close> when it starts with that process id and terminates with
    \<^verbatim>\<open>cmd.ProcessState.ExitCode() = code\<close>. \<^verbatim>\<open>cmd.Run\<close> and \<^verbatim>\<open>cmd.Wait\<close> return nil
    exactly when the code is 0.
  \<^item> \<open>podsGet n\<close> is the \<open>n\<close>-th \<^verbatim>\<open>Pods(namespace).Get\<close> request: the time in nanoseconds
    it would take with no deadline, and the pod (\<open>None\<close> for an error).
\<close>

datatype 'a go = Return 'a | Panic

datatype error =
    ErrEnvScript | ErrWriteEnvFile | ErrPidFile | ErrLogFile | ErrInitContainerFailed
  | ErrExitCodeFile | ErrMkdirScratchEtc | ErrKubeDNSNotSet | ErrWriteResolvConf
  | ErrHostname | ErrInterfaces | ErrWriteHosts | ErrWriteIP | ErrUnsetenv string
  | CouldNotPrepareDNS error | CouldNotAnnounceIP error | CouldNotClearEnvironment error

section \<open>\<^verbatim>\<open>fileExists\<close>\<close>

definition fileExists :: "world \<Rightarrow> event list \<Rightarrow> string \<Rightarrow> bool go" where
  "fileExists w t filename =
     (if filename = '''' then Return False
      else (case stat w t filename of
              StatError notExist \<Rightarrow> (if notExist then Return False else Panic)
            | FileInfo isDir \<Rightarrow> Return (\<not> isDir)))"

text \<open>The call of \<^verbatim>\<open>os.Stat\<close> that \<^verbatim>\<open>fileExists\<close> makes, none for the empty name.\<close>

definition statEvents :: "string \<Rightarrow> event list" where
  "statEvents filename = (if filename = '''' then [] else [EvStat filename])"

section \<open>Environment preparation\<close>

text \<open>
  The format string of \<^verbatim>\<open>prepareDNS\<close> is a raw string literal that runs over three source
  lines; the second and the third line of the literal begin with the tab character that
  indents the source.
\<close>

definition resolvConfContent :: "string \<Rightarrow> string \<Rightarrow> string" where
  "resolvConfContent namespace kubeDNSIP =
     ''search '' @ namespace @ ''.svc.cluster.local svc.cluster.local cluster.local''
     @ [CHR 0x0A, CHR 0x09] @ ''nameserver '' @ kubeDNSIP
     @ [CHR 0x0A, CHR 0x09] @ ''options ndots:5''"

fun ipAddresses :: "addr list \<Rightarrow> string list" where
  "ipAddresses [] = []"
| "ipAddresses (IPNet loopback isV4 s # as) =
     (if \<not> loopback \<and> isV4 then s # ipAddresses as else ipAddresses as)"
| "ipAddresses (OtherAddr # as) = ipAddresses as"

definition prepareDNS :: "world \<Rightarrow> Pod \<Rightarrow> event list \<Rightarrow> error option \<times> event list" where
  "prepareDNS w pod t =
     (if \<not> mkdirAllOk w t ''/scratch/etc'' then (Some ErrMkdirScratchEtc, t)
      else let t1 = t @ [EvMkdirAll ''/scratch/etc''];
               kubeDNSIP = getenv w ''KUBEDNS_IP''
      in if kubeDNSIP = '''' then (Some ErrKubeDNSNotSet, t1)
      else let resolvConf = resolvConfContent (podNamespace pod) kubeDNSIP
      in if \<not> writeFileOk w t1 ''/scratch/etc/resolv.conf'' then (Some ErrWriteResolvConf, t1)
      else let t2 = t1 @ [EvWriteFile ResolvConf ''/scratch/etc/resolv.conf'' resolvConf]
      in (case hostname w t2 of
            None \<Rightarrow> (Some ErrHostname, t2)
          | Some h \<Rightarrow>
             (case interfaceAddrs w t2 of
                None \<Rightarrow> (Some ErrInterfaces, t2)
              | Some addrs \<Rightarrow>
                 (let ipString = Join (ipAddresses addrs) '' '' @ '' '' @ h;
                      hostsContent = ''127.0.0.1 localhost'' @ [CHR 0x0A] @ ipString @ '' '' @ [CHR 0x0A]
                  in if \<not> writeFileOk w t2 ''/scratch/etc/hosts'' then (Some ErrWriteHosts, t2)
                     else (None, t2 @ [EvWriteFile HostsFile ''/scratch/etc/hosts'' hostsContent])))))"

definition announceIP :: "externals \<Rightarrow> world \<Rightarrow> Pod \<Rightarrow> event list \<Rightarrow> error option \<times> event list" where
  "announceIP ext w pod t =
     (case interfaceAddrs w t of
        None \<Rightarrow> (Some ErrInterfaces, t)
      | Some addrs \<Rightarrow>
         (let ipString = Join (ipAddresses addrs) '' ''
          in if \<not> writeFileOk w t (IPAddressPath ext pod) then (Some ErrWriteIP, t)
             else (None, t @ [EvWriteFile IPFile (IPAddressPath ext pod) ipString])))"

definition envVars :: "string list" where
  "envVars = [''LD_LIBRARY_PATH'', ''SINGULARITY_COMMAND'', ''SINGULARITY_CONTAINER'',
     ''SINGULARITY_ENVIRONMENT'', ''SINGULARITY_NAME'', ''APPTAINER_APPNAME'',
     ''APPTAINER_COMMAND'', ''APPTAINER_CONTAINER'', ''APPTAINER_ENVIRONMENT'',
     ''APPTAINER_NAME'', ''APPTAINER_BIND'', ''SINGULARITY_BIND'']"

fun unsetAll :: "world \<Rightarrow> string list \<Rightarrow> event list \<Rightarrow> error option \<times> event list" where
  "unsetAll w [] t = (None, t)"
| "unsetAll w (name # names) t =
     (if \<not> unsetenvOk w t name then (Some (ErrUnsetenv name), t)
      else unsetAll w names (t @ [EvUnsetenv name]))"

definition cleanEnvironment :: "world \<Rightarrow> event list \<Rightarrow> error option \<times> event list" where
  "cleanEnvironment w t = unsetAll w envVars t"

definition prepareContainers :: "externals \<Rightarrow> world \<Rightarrow> Pod \<Rightarrow> event list \<Rightarrow> error option \<times> event list" where
  "prepareContainers ext w pod t =
     (case prepareDNS w pod t of
        (Some e, t1) \<Rightarrow> (Some (CouldNotPrepareDNS e), t1)
      | (None, t1) \<Rightarrow>
         (case announceIP ext w pod t1 of
            (Some e, t2) \<Rightarrow> (Some (CouldNotAnnounceIP e), t2)
          | (None, t2) \<Rightarrow>
             (case cleanEnvironment w t2 of
                (Some e, t3) \<Rightarrow> (Some (CouldNotClearEnvironment e), t3)
              | (None, t3) \<Rightarrow> (None, t3))))"

section \<open>The launcher\<close>

text \<open>
  The block under \<^verbatim>\<open>// Environment File Handling\<close>, the same in \<^verbatim>\<open>handleInitContainers\<close>
  and \<^verbatim>\<open>handleContainers\<close>.
\<close>

definition envFileHandling ::
  "externals \<Rightarrow> world \<Rightarrow> Pod \<Rightarrow> Container \<Rightarrow> event list \<Rightarrow> error option go \<times> event list" where
  "envFileHandling ext w pod c t =
     (let envFilePath = EnvFilePath ext pod (cName c);
          t1 = t @ statEvents envFilePath
      in (case fileExists w t envFilePath of
            Panic \<Rightarrow> (Panic, t1)
          | Return False \<Rightarrow> (Return None, t1)
          | Return True \<Rightarrow>
             (let t2 = t1 @ [EvSh envFilePath]
              in (case shCombinedOutput w t1 envFilePath of
                    None \<Rightarrow> (Return (Some ErrEnvScript), t2)
                  | Some output \<Rightarrow>
                     (if \<not> writeFileOk w t2 (envFileName ext pod c)
                      then (Return (Some ErrWriteEnvFile), t2)
                      else (Return None, t2 @ [EvWriteFile EnvFile (envFileName ext pod c) output]))))))"

definition isDebug :: "world \<Rightarrow> bool" where
  "isDebug w = (getenv w ''DEBUG_MODE'' = ''true'')"

text \<open>
  One iteration of the loop of \<^verbatim>\<open>handleInitContainers\<close>. The pid file gets the agent's
  own process id; \<^verbatim>\<open>cmd.Run\<close> blocks until the child has terminated, and its error (a
  child that did not start, or one that did not exit with code 0) returns from the
  function before the exit code is written.
\<close>

definition initContainerStep ::
  "externals \<Rightarrow> world \<Rightarrow> bool \<Rightarrow> Pod \<Rightarrow> Container \<Rightarrow> event list \<Rightarrow> error option go \<times> event list" where
  "initContainerStep ext w hpkEnv pod c t =
     (case envFileHandling ext w pod c t of
        (Return None, t1) \<Rightarrow>
          (let envFilePath = EnvFilePath ext pod (cName c);
               t2 = t1 @ statEvents envFilePath
           in (case fileExists w t1 envFilePath of
                 Panic \<Rightarrow> (Panic, t2)
               | Return envFileExists \<Rightarrow>
                  (let apptainerArgs = initApptainerArgs ext (isDebug w) hpkEnv pod c envFileExists;
                       idPath = IDPath ext pod (cName c);
                       logsPath = LogsPath ext pod (cName c);
                       exitCodePath = ExitCodePath ext pod (cName c)
                   in if \<not> writeFileOk w t2 idPath then (Return (Some ErrPidFile), t2)
                      else let t3 = t2 @ [EvWriteFile IdFile idPath (''pid://'' @ Itoa (getpid w))]
                      in if \<not> createOk w t3 logsPath then (Return (Some ErrLogFile), t3)
                      else let t4 = t3 @ [EvCreate logsPath]
                      in (case startChild w t4 (''apptainer'' # apptainerArgs) of
                            None \<Rightarrow> (Return (Some ErrInitContainerFailed), t4)
                          | Some (pid, code) \<Rightarrow>
                             (let t5 = t4 @ [EvStart (cName c) apptainerArgs, EvExit (cName c) code]
                              in if code \<noteq> 0 then (Return (Some ErrInitContainerFailed), t5)
                                 else if \<not> writeFileOk w t5 exitCodePath
                                 then (Return (Some ErrExitCodeFile), t5)
                                 else (Return None,
                                       t5 @ [EvWriteFile ExitCodeFile exitCodePath (Itoa code)]))))))
      | r \<Rightarrow> r)"

fun initContainersLoop ::
  "externals \<Rightarrow> world \<Rightarrow> bool \<Rightarrow> Pod \<Rightarrow> Container list \<Rightarrow> event list \<Rightarrow> error option go \<times> event list" where
  "initContainersLoop ext w hpkEnv pod [] t = (Return None, t)"
| "initContainersLoop ext w hpkEnv pod (c # cs) t =
     (case initContainerStep ext w hpkEnv pod c t of
        (Return None, t') \<Rightarrow> initContainersLoop ext w hpkEnv pod cs t'
      | r \<Rightarrow> r)"

definition handleInitContainers ::
  "externals \<Rightarrow> world \<Rightarrow> Pod \<Rightarrow> bool \<Rightarrow> event list \<Rightarrow> error option go \<times> event list" where
  "handleInitContainers ext w pod hpkEnv t = initContainersLoop ext w hpkEnv pod (InitContainers pod) t"

text \<open>
  One iteration of the loop of \<^verbatim>\<open>handleContainers\<close>, up to the \<^verbatim>\<open>go\<close> statement. The
  supervisory task it starts is the pair of the container and the argument vector.
\<close>

type_synonym task = "Container \<times> string list"

definition mainContainerStep ::
  "externals \<Rightarrow> world \<Rightarrow> bool \<Rightarrow> Pod \<Rightarrow> Container \<Rightarrow> event list
     \<Rightarrow> error option go \<times> event list \<times> task list" where
  "mainContainerStep ext w hpkEnv pod c t =
     (case envFileHandling ext w pod c t of
        (Return None, t1) \<Rightarrow>
          (let envFilePath = EnvFilePath ext pod (cName c);
               t2 = t1 @ statEvents envFilePath
           in (case fileExists w t1 envFilePath of
                 Panic \<Rightarrow> (Panic, t2, [])
               | Return envFileExists \<Rightarrow>
                  (let apptainerArgs = mainApptainerArgs ext (isDebug w) hpkEnv pod c envFileExists
                   in (Return None, t2 @ [EvGo (cName c) apptainerArgs], [(c, apptainerArgs)]))))
      | (r, t1) \<Rightarrow> (r, t1, []))"

fun mainContainersLoop ::
  "externals \<Rightarrow> world \<Rightarrow> bool \<Rightarrow> Pod \<Rightarrow> Container list \<Rightarrow> event list
     \<Rightarrow> error option go \<times> event list \<times> task list" where
  "mainContainersLoop ext w hpkEnv pod [] t = (Return None, t, [])"
| "mainContainersLoop ext w hpkEnv pod (c # cs) t =
     (case mainContainerStep ext w hpkEnv pod c t of
        (Return None, t', tasks) \<Rightarrow>
          (case mainContainersLoop ext w hpkEnv pod cs t' of
             (r, t'', tasks') \<Rightarrow> (r, t'', tasks @ tasks'))
      | r \<Rightarrow> r)"

definition handleContainers ::
  "externals \<Rightarrow> world \<Rightarrow> Pod \<Rightarrow> bool \<Rightarrow> event list \<Rightarrow> error option go \<times> event list \<times> task list" where
  "handleContainers ext w pod hpkEnv t = mainContainersLoop ext w hpkEnv pod (Containers pod) t"

text \<open>
  The body of the goroutine of one main container, with the events of this task alone
  (how the tasks interleave is not part of the model). After a failed \<^verbatim>\<open>cmd.Start\<close> the
  error is logged and the function goes on to \<^verbatim>\<open>cmd.Process.Pid\<close>, where \<^verbatim>\<open>cmd.Process\<close>
  is nil: the goroutine panics. A panic that no goroutine recovers ends the whole
  program.
\<close>

definition mainContainerTask ::
  "externals \<Rightarrow> world \<Rightarrow> Pod \<Rightarrow> task \<Rightarrow> event list \<Rightarrow> unit go \<times> event list" where
  "mainContainerTask ext w pod tk t =
     (let c = fst tk; apptainerArgs = snd tk;
          idPath = IDPath ext pod (cName c);
          logsPath = LogsPath ext pod (cName c);
          exitCodePath = ExitCodePath ext pod (cName c)
      in if \<not> createOk w t logsPath then (Return (), t)
         else let t1 = t @ [EvCreate logsPath]
         in (case startChild w t1 (''apptainer'' # apptainerArgs) of
               None \<Rightarrow> (Panic, t1)
             | Some (pid, code) \<Rightarrow>
                (let t2 = t1 @ [EvStart (cName c) apptainerArgs]
                 in if \<not> writeFileOk w t2 idPath then (Return (), t2)
                    else let t3 = t2 @ [EvWriteFile IdFile idPath (''pid://'' @ Itoa pid)];
                             t4 = t3 @ [EvExit (cName c) code]
                    in if \<not> writeFileOk w t4 exitCodePath then (Return (), t4)
                       else (Return (), t4 @ [EvWriteFile ExitCodeFile exitCodePath (Itoa code)]))))"

section \<open>Pod acquisition and \<^verbatim>\<open>main\<close>\<close>

text \<open>Durations are in nanoseconds, as \<^verbatim>\<open>time.Duration\<close>.\<close>

definition Second :: nat where
  "Second = 1000000000"

definition Minute :: nat where
  "Minute = 60 * Second"

text \<open>
  \<^verbatim>\<open>getPodDetails\<close>: the request is made under \<^verbatim>\<open>context.WithTimeout(..., 10*time.Second)\<close>,
  so it returns after at most that long, with an error when the deadline was reached.
  The result is the time the call took and the pod (\<open>None\<close> for an error).
\<close>

definition getPodDetails :: "world \<Rightarrow> nat \<Rightarrow> nat \<times> Pod option" where
  "getPodDetails w n =
     (case podsGet w n of
        (d, r) \<Rightarrow> if d < 10 * Second then (d, r) else (10 * Second, None))"

text \<open>
  The loop \<^verbatim>\<open>acquire_pod_loop\<close>. \<open>deadline\<close> is when the channel of
  \<^verbatim>\<open>time.After(5 * time.Minute)\<close> becomes ready, \<open>now\<close> the time at the head of the loop,
  \<open>n\<close> the number of requests made so far. Time passes in \<^verbatim>\<open>getPodDetails\<close> and in
  \<^verbatim>\<open>time.Sleep\<close> only. The \<^verbatim>\<open>select\<close> takes its \<^verbatim>\<open>default\<close> branch only while the channel
  is not ready. The log has, for every request of the loop, when it began, when it
  returned and whether it returned a pod; the pod itself is discarded by the loop.
\<close>

type_synonym poll = "nat \<times> nat \<times> bool"

function acquire_pod_loop ::
  "world \<Rightarrow> nat \<Rightarrow> nat \<Rightarrow> nat \<Rightarrow> poll list \<Rightarrow> bool \<times> nat \<times> nat \<times> poll list" where
  "acquire_pod_loop w deadline now n log =
     (if deadline \<le> now then (False, now, n, log)
      else (case getPodDetails w n of
              (d, None) \<Rightarrow>
                acquire_pod_loop w deadline (now + d + 5 * Second) (Suc n) (log @ [(now, now + d, False)])
            | (d, Some pod) \<Rightarrow> (True, now + d, Suc n, log @ [(now, now + d, True)])))"
  by pat_completeness auto
termination
  by (relation "measure (\<lambda>(w, deadline, now, n, log). deadline - now)") (auto simp: Second_def)

declare acquire_pod_loop.simps [simp del]

datatype outcome =
    Exit nat    \<comment> \<open>the process has ended with this status\<close>
  | Waiting     \<comment> \<open>all main containers are spawned; \<^verbatim>\<open>main\<close> blocks on \<^verbatim>\<open>ctx.Done()\<close>\<close>

text \<open>
  \<^verbatim>\<open>main\<close> from the second \<^verbatim>\<open>getPodDetails\<close> on. A \<^verbatim>\<open>return\<close> from \<^verbatim>\<open>main\<close> ends a Go
  program with status 0, a panic that is not recovered with status 2.
\<close>

definition launch :: "externals \<Rightarrow> world \<Rightarrow> Pod \<Rightarrow> outcome \<times> event list \<times> task list" where
  "launch ext w pod =
     (case prepareContainers ext w pod [] of
        (Some e, t) \<Rightarrow> (Exit 0, t, [])
      | (None, t) \<Rightarrow>
         (case (if length (InitContainers pod) > 0 then handleInitContainers ext w pod True t
                else (Return None, t)) of
            (Panic, t1) \<Rightarrow> (Exit 2, t1, [])
          | (Return (Some e), t1) \<Rightarrow> (Exit 0, t1, [])
          | (Return None, t1) \<Rightarrow>
             (case handleContainers ext w pod True t1 of
                (Panic, t2, tasks) \<Rightarrow> (Exit 2, t2, tasks)
              | (Return (Some e), t2, tasks) \<Rightarrow> (Exit 0, t2, tasks)
              | (Return None, t2, tasks) \<Rightarrow> (Waiting, t2, tasks))))"

text \<open>
  \<^verbatim>\<open>main\<close>, started at time \<open>start\<close> with the two flags. \<^verbatim>\<open>log.Fatal\<close> and \<^verbatim>\<open>os.Exit(1)\<close>
  end the process with status 1.
\<close>

definition main :: "externals \<Rightarrow> world \<Rightarrow> nat \<Rightarrow> string \<Rightarrow> string \<Rightarrow> outcome \<times> event list \<times> task list" where
  "main ext w start podID namespaceID =
     (if podID = '''' \<or> namespaceID = '''' then (Exit 1, [], [])
      else if \<not> kubeconfigOk w then (Exit 1, [], [])
      else if \<not> clientsetOk w then (Exit 1, [], [])
      else (case acquire_pod_loop w (start + 5 * Minute) start 0 [] of
              (False, now, n, log) \<Rightarrow> (Exit 1, [], [])
            | (True, now, n, log) \<Rightarrow>
               (case getPodDetails w n of
                  (d, None) \<Rightarrow> (Exit 2, [], [])
                | (d, Some pod) \<Rightarrow> launch ext w pod)))"

section \<open>The lines of a file\<close>

text \<open>The lines of a text are its pieces between line feeds.\<close>

fun linesFrom :: "string \<Rightarrow> string \<Rightarrow> string list" where
  "linesFrom cur [] = [cur]"
| "linesFrom cur (c # cs) = (if c = CHR 0x0A then cur # linesFrom [] cs else linesFrom (cur @ [c]) cs)"

definition Lines :: "string \<Rightarrow> string list" where
  "Lines s = linesFrom [] s"

section \<open>The life cycle of containers in a run\<close>

datatype phase =
    Started string
  | Exited string int
  | ExitCodeWritten string string
  | Spawned string

fun lifecycle :: "event list \<Rightarrow> phase list" where
  "lifecycle [] = []"
| "lifecycle (EvStart n a # es) = Started n # lifecycle es"
| "lifecycle (EvExit n code # es) = Exited n code # lifecycle es"
| "lifecycle (EvWriteFile ExitCodeFile p s # es) = ExitCodeWritten p s # lifecycle es"
| "lifecycle (EvGo n a # es) = Spawned n # lifecycle es"
| "lifecycle (e # es) = lifecycle es"


section \<open>Notions used to state the properties\<close>

text \<open>
  The security override as the specification words it: the uid group when the uid is not
  0, then the gid group when the gid is not 0.
\<close>

definition securityOverride :: "int \<Rightarrow> int \<Rightarrow> string list" where
  "securityOverride uid gid =
     (if uid \<noteq> 0 then [''--security'', ''uid:'' @ Itoa uid @ '',gid:'' @ Itoa uid, ''--userns''] else [])
     @ (if gid \<noteq> 0 then [''--security'', ''gid:'' @ Itoa gid, ''--userns''] else [])"


text \<open>
  A log of requests is paced from time \<open>now\<close> and request number \<open>n\<close>: each request
  begins at the current time, before the deadline, takes the time \<^verbatim>\<open>getPodDetails\<close>
  takes, succeeds when \<^verbatim>\<open>getPodDetails\<close> returns a pod, and is followed by another only
  if it failed, 5 seconds after it returned.
\<close>

fun paced :: "world \<Rightarrow> nat \<Rightarrow> nat \<Rightarrow> nat \<Rightarrow> poll list \<Rightarrow> bool" where
  "paced w deadline now n [] = True"
| "paced w deadline now n ((b, e, ok) # ps) =
     (b = now \<and> now < deadline \<and> e = b + fst (getPodDetails w n)
      \<and> ok = (snd (getPodDetails w n) \<noteq> None)
      \<and> (ps = [] \<or> (\<not> ok \<and> paced w deadline (e + 5 * Second) (Suc n) ps)))"

text \<open>
  The pod the program works on is decoded from the answer of the API server
  (\<^verbatim>\<open>Pods(namespace).Get\<close>), and the field \<^verbatim>\<open>command\<close> of a container is written and read
  with \<^verbatim>\<open>omitempty\<close>: a command that has no element arrives as nil, never as an empty
  slice that is not nil.
\<close>

definition decoded :: "Container \<Rightarrow> bool" where
  "decoded c = (cCommand c \<noteq> Some [])"

text \<open>
  Every call \<^verbatim>\<open>fileExists(path)\<close> with a non-empty path leaves the event \<open>EvStat path\<close>,
  and the history of the call is the trace before that event. \<open>noPanicIn w t added\<close>: of
  the probes recorded in \<open>added\<close>, made after the history \<open>t\<close>, none panics.
  \<open>endsInPanic w t added\<close>: the last event of \<open>added\<close> is a probe that panics, and none
  before it does.
\<close>

fun noPanicIn :: "world \<Rightarrow> event list \<Rightarrow> event list \<Rightarrow> bool" where
  "noPanicIn w t [] = True"
| "noPanicIn w t (EvStat p # es) = (fileExists w t p \<noteq> Panic \<and> noPanicIn w (t @ [EvStat p]) es)"
| "noPanicIn w t (e # es) = noPanicIn w (t @ [e]) es"

definition endsInPanic :: "world \<Rightarrow> event list \<Rightarrow> event list \<Rightarrow> bool" where
  "endsInPanic w t added =
     (\<exists>a p. added = a @ [EvStat p] \<and> noPanicIn w t a \<and> fileExists w (t @ a) p = Panic)"

definition probed :: "world \<Rightarrow> event list \<Rightarrow> event list \<Rightarrow> bool \<Rightarrow> bool" where
  "probed w t added panicked = (if panicked then endsInPanic w t added else noPanicIn w t added)"

section \<open>Example inputs\<close>

text \<open>
  Modelled from the spec: the packages \<^verbatim>\<open>endpoint\<close>, \<^verbatim>\<open>image\<close> and \<^verbatim>\<open>podhandler\<close> are
  not part of the sources at hand. For the examples the paths follow the layout of the
  pod directory in the specification,
  \<^verbatim>\<open><workingDirectory>/<namespace>/<podName>/<containerName>/{.env,.id,.exitCode,.logs}\<close>,
  with \<^verbatim>\<open>volumes/\<close> and \<^verbatim>\<open>.ip\<close> in the pod directory; the effective ids are the same
  for every container; an image is a file named after the reference in an image
  directory; \<^verbatim>\<open>filepath.Join\<close> of two clean path elements puts a slash between them.
\<close>

definition layout :: "string \<Rightarrow> int \<Rightarrow> int \<Rightarrow> externals" where
  "layout wd uid gid =
     \<lparr> EffectiveRunAsUser = (\<lambda>pod c. (uid, gid)),
       EnvFilePath = (\<lambda>pod n. wd @ ''/'' @ podNamespace pod @ ''/'' @ podName pod @ ''/'' @ n @ ''/.env''),
       IDPath = (\<lambda>pod n. wd @ ''/'' @ podNamespace pod @ ''/'' @ podName pod @ ''/'' @ n @ ''/.id''),
       LogsPath = (\<lambda>pod n. wd @ ''/'' @ podNamespace pod @ ''/'' @ podName pod @ ''/'' @ n @ ''/.logs''),
       ExitCodePath = (\<lambda>pod n. wd @ ''/'' @ podNamespace pod @ ''/'' @ podName pod @ ''/'' @ n @ ''/.exitCode''),
       VolumeDir = (\<lambda>pod. wd @ ''/'' @ podNamespace pod @ ''/'' @ podName pod @ ''/volumes''),
       IPAddressPath = (\<lambda>pod. wd @ ''/'' @ podNamespace pod @ ''/'' @ podName pod @ ''/.ip''),
       ImageDir = (\<lambda>pod. wd @ ''/images/''),
       ParseImageName = (\<lambda>image. image @ ''.sif''),
       filepath_Join = (\<lambda>a b. a @ ''/'' @ b) \<rparr>"

text \<open>
  The pod of the specification's scenario "failing init": an init container \<open>prep\<close> that
  runs \<^verbatim>\<open>/bin/false\<close> and a main container \<open>app\<close>, here with two volume mounts.
\<close>

definition prep :: Container where
  "prep = \<lparr> cName = ''prep'', cImage = ''busybox'', cCommand = Some [''/bin/false''],
            cArgs = None, cVolumeMounts = [] \<rparr>"

definition app :: Container where
  "app = \<lparr> cName = ''app'', cImage = ''busybox'', cCommand = Some [''/bin/sleep'', ''1''],
           cArgs = None,
           cVolumeMounts = [\<lparr> vmName = ''data'', vmMountPath = ''/data'', vmReadOnly = False \<rparr>,
                            \<lparr> vmName = ''conf'', vmMountPath = ''/etc/conf'', vmReadOnly = True \<rparr>] \<rparr>"

definition demo :: Pod where
  "demo = \<lparr> podNamespace = ''default'', podName = ''demo'', InitContainers = [prep],
            Containers = [app] \<rparr>"

text \<open>
  A node on which everything works: the DNS address is set, no container has an env
  file, every file operation succeeds, every child starts and exits with 0, and the API
  answers every request with the pod after a millisecond.
\<close>

definition calm :: world where
  "calm =
     \<lparr> getenv = (\<lambda>v. if v = ''KUBEDNS_IP'' then ''10.0.0.10'' else ''''),
       getpid = 100,
       stat = (\<lambda>t p. StatError True),
       shCombinedOutput = (\<lambda>t p. Some ''''),
       writeFileOk = (\<lambda>t p. True),
       createOk = (\<lambda>t p. True),
       mkdirAllOk = (\<lambda>t p. True),
       unsetenvOk = (\<lambda>t v. True),
       hostname = (\<lambda>t. Some ''nid001''),
       interfaceAddrs = (\<lambda>t. Some [IPNet True True ''127.0.0.1'', IPNet False True ''10.1.2.3'']),
       startChild = (\<lambda>t argv. Some (4242, 0)),
       kubeconfigOk = True,
       clientsetOk = True,
       podsGet = (\<lambda>n. (1000000, Some demo)) \<rparr>"

text \<open>The same node, where \<^verbatim>\<open>os.Stat\<close> fails with an error other than not-exist.\<close>

definition denied :: world where
  "denied = calm\<lparr>stat := (\<lambda>t p. StatError False)\<rparr>"

text \<open>
  The same node, where \<^verbatim>\<open>os.Stat\<close> fails with an error other than not-exist once the env
  file of \<open>app\<close> has been probed before: the second probe of the main container fails.
\<close>

definition deniedLater :: world where
  "deniedLater = calm\<lparr>stat := (\<lambda>t p. if EvStat ''/k8s/default/demo/app/.env'' \<in> set t
                                      then StatError False else StatError True)\<rparr>"

text \<open>The same node, where every child exits with code 1.\<close>

definition failing :: world where
  "failing = calm\<lparr>startChild := (\<lambda>t argv. Some (4242, 1))\<rparr>"

text \<open>The same node, where the runtime binary cannot be started.\<close>

definition noRuntime :: world where
  "noRuntime = calm\<lparr>startChild := (\<lambda>t argv. None)\<rparr>"

text \<open>The same node, where no environment variable is set.\<close>

definition noDNS :: world where
  "noDNS = calm\<lparr>getenv := (\<lambda>v. '''')\<rparr>"

text \<open>
  An API whose first two requests would take 20 seconds, and which answers from the third
  request on within a second; and an API that never answers in time.
\<close>

definition flaky :: world where
  "flaky = calm\<lparr>podsGet := (\<lambda>n. if n < 2 then (20 * Second, None) else (Second, Some demo))\<rparr>"

definition silent :: world where
  "silent = calm\<lparr>podsGet := (\<lambda>n. (20 * Second, None))\<rparr>"

section \<open>The shape of the argument vector\<close>

lemma appendToLast_snoc: "appendToLast (xs @ [x]) s = xs @ [x @ s]"
  by (simp add: appendToLast_def)

lemma appendSecurity_eq: "appendSecurity uid gid args = args @ securityOverride uid gid"
  by (simp add: appendSecurity_def securityOverride_def)

lemma appendRest_eq: "appendRest ext pod c e args = args @ appendRest ext pod c e []"
  by (simp add: appendRest_def)

lemma initialArgs_snoc: "initialArgs dbg c = butlast (initialArgs dbg c) @ [''--unsquash'']"
  by (simp add: initialArgs_def)

lemma init_args_shape:
  assumes "EffectiveRunAsUser ext pod c = (uid, gid)"
  shows "initApptainerArgs ext dbg hpkEnv pod c e =
     (if bindsOf ext pod c = []
      then initialArgs dbg c @ (if hpkEnv then [''--bind'', dnsBind] else [])
      else if hpkEnv
           then initialArgs dbg c @ [''--bind'', dnsBind @ '','' @ Join (bindsOf ext pod c) '','']
           else butlast (initialArgs dbg c) @ [''--unsquash'' @ '','' @ Join (bindsOf ext pod c) '',''])
     @ securityOverride uid gid @ appendRest ext pod c e []"
proof -
  have a: "appendToLast (initialArgs dbg c) s = butlast (initialArgs dbg c) @ [''--unsquash'' @ s]" for s
    using appendToLast_snoc [of "butlast (initialArgs dbg c)" "''--unsquash''" s] initialArgs_snoc [of dbg c]
    by simp
  have b: "appendToLast (initialArgs dbg c @ [''--bind'', dnsBind]) s = initialArgs dbg c @ [''--bind'', dnsBind @ s]" for s
    using appendToLast_snoc [of "initialArgs dbg c @ [''--bind'']" dnsBind s] by simp
  show ?thesis
    unfolding initApptainerArgs_def Let_def
    using assms
    by (simp add: a b appendSecurity_eq appendRest_eq [of ext pod c e "_ @ _"])
qed

lemma main_args_shape:
  assumes "EffectiveRunAsUser ext pod c = (uid, gid)"
  shows "mainApptainerArgs ext dbg hpkEnv pod c e =
     (if hpkEnv
      then (if bindsOf ext pod c = []
            then initialArgs dbg c @ [''--bind'', dnsBind]
            else initialArgs dbg c @ [''--bind'', dnsBind @ '','' @ Join (bindsOf ext pod c) '',''])
      else initialArgs dbg c)
     @ securityOverride uid gid @ appendRest ext pod c e []"
proof -
  have b: "appendToLast (initialArgs dbg c @ [''--bind'', dnsBind]) s = initialArgs dbg c @ [''--bind'', dnsBind @ s]" for s
    using appendToLast_snoc [of "initialArgs dbg c @ [''--bind'']" dnsBind s] by simp
  show ?thesis
    unfolding mainApptainerArgs_def Let_def
    using assms
    by (simp add: b appendSecurity_eq appendRest_eq [of ext pod c e "_ @ _"])
qed

lemma Itoa_0: "Itoa 0 = ''0''"
  by (simp add: Itoa_def digits.simps)

lemma init_args_mode: "initApptainerArgs ext dbg hpkEnv pod c e ! Suc 0 = executionMode c"
proof -
  obtain uid gid where ug: "EffectiveRunAsUser ext pod c = (uid, gid)"
    by (cases "EffectiveRunAsUser ext pod c")
  show ?thesis
    unfolding init_args_shape [OF ug]
    by (simp add: nth_append initialArgs_def)
qed

lemma main_args_mode: "mainApptainerArgs ext dbg hpkEnv pod c e ! Suc 0 = executionMode c"
proof -
  obtain uid gid where ug: "EffectiveRunAsUser ext pod c = (uid, gid)"
    by (cases "EffectiveRunAsUser ext pod c")
  show ?thesis
    unfolding main_args_shape [OF ug]
    by (simp add: nth_append initialArgs_def)
qed

text \<open>
  C6. For every container as the program receives it (decoded from the answer of the
  API), the execution mode, which is the second element of the argument vector in
  \<^verbatim>\<open>handleInitContainers\<close> and in \<^verbatim>\<open>handleContainers\<close> alike, is \<^verbatim>\<open>exec\<close> exactly when the
  command of the container is non-empty, and \<^verbatim>\<open>run\<close> otherwise.
\<close>

theorem executionMode_by_command:
  assumes "decoded c"
  shows "initApptainerArgs ext dbg hpkEnv pod c e ! 1 = (if elems (cCommand c) \<noteq> [] then ''exec'' else ''run'')
       \<and> mainApptainerArgs ext dbg hpkEnv pod c e ! 1 = (if elems (cCommand c) \<noteq> [] then ''exec'' else ''run'')"
  using assms
  by (cases "cCommand c") (simp_all add: init_args_mode main_args_mode executionMode_def elems_def decoded_def)

theorem executionMode_by_command_witness:
  "decoded app \<and> decoded (app\<lparr>cCommand := None\<rparr>)
   \<and> initApptainerArgs (layout ''/k8s'' 0 0) False True demo app False ! 1 = ''exec''
   \<and> mainApptainerArgs (layout ''/k8s'' 0 0) False True demo app False ! 1 = ''exec''
   \<and> initApptainerArgs (layout ''/k8s'' 0 0) False True demo (app\<lparr>cCommand := None\<rparr>) False ! 1 = ''run''
   \<and> mainApptainerArgs (layout ''/k8s'' 0 0) False True demo (app\<lparr>cCommand := None\<rparr>) False ! 1 = ''run''"
proof -
  have a: "decoded app" by (simp add: decoded_def app_def)
  have b: "decoded (app\<lparr>cCommand := None\<rparr>)" by (simp add: decoded_def)
  from executionMode_by_command [OF a, of "layout ''/k8s'' 0 0" False True demo False]
       executionMode_by_command [OF b, of "layout ''/k8s'' 0 0" False True demo False] a b
  show ?thesis by (simp add: app_def elems_def)
qed

lemma no_security_in_options:
  "''--security'' \<notin> set (initialArgs dbg c) \<and> ''--userns'' \<notin> set (initialArgs dbg c)
   \<and> ''--security'' \<notin> set (butlast (initialArgs dbg c)) \<and> ''--userns'' \<notin> set (butlast (initialArgs dbg c))"
  by (simp add: initialArgs_def apptainerVerbosity_def executionMode_def)

text \<open>
  C8. With \<open>(uid, gid)\<close> the effective ids of the container, the vector of either
  function is: options that hold neither \<^verbatim>\<open>--security\<close> nor \<^verbatim>\<open>--userns\<close>, then the
  security override, then the env-file option, image, command and arguments. The
  override is \<^verbatim>\<open>--security uid:<u>,gid:<u> --userns\<close> when the uid is not 0 (the uid in
  both fields), followed by \<^verbatim>\<open>--security gid:<g> --userns\<close> when the gid is not 0; an id
  that is 0 contributes nothing.
\<close>

theorem security_override:
  assumes "EffectiveRunAsUser ext pod c = (uid, gid)"
  shows "(\<exists>opts. initApptainerArgs ext dbg hpkEnv pod c e
              = opts @ securityOverride uid gid @ appendRest ext pod c e []
            \<and> ''--security'' \<notin> set opts \<and> ''--userns'' \<notin> set opts)
       \<and> (\<exists>opts. mainApptainerArgs ext dbg hpkEnv pod c e
              = opts @ securityOverride uid gid @ appendRest ext pod c e []
            \<and> ''--security'' \<notin> set opts \<and> ''--userns'' \<notin> set opts)
       \<and> (uid \<noteq> 0 \<longrightarrow>
            sublist [''--security'', ''uid:'' @ Itoa uid @ '',gid:'' @ Itoa uid, ''--userns'']
              (initApptainerArgs ext dbg hpkEnv pod c e)
          \<and> sublist [''--security'', ''uid:'' @ Itoa uid @ '',gid:'' @ Itoa uid, ''--userns'']
              (mainApptainerArgs ext dbg hpkEnv pod c e))
       \<and> (gid \<noteq> 0 \<longrightarrow>
            sublist [''--security'', ''gid:'' @ Itoa gid, ''--userns'']
              (initApptainerArgs ext dbg hpkEnv pod c e)
          \<and> sublist [''--security'', ''gid:'' @ Itoa gid, ''--userns'']
              (mainApptainerArgs ext dbg hpkEnv pod c e))
       \<and> (uid = 0 \<longrightarrow> securityOverride uid gid
             = (if gid \<noteq> 0 then [''--security'', ''gid:'' @ Itoa gid, ''--userns''] else []))
       \<and> (gid = 0 \<longrightarrow> securityOverride uid gid
             = (if uid \<noteq> 0 then [''--security'', ''uid:'' @ Itoa uid @ '',gid:'' @ Itoa uid, ''--userns'']
                else []))"
proof -
  let ?U = "[''--security'', ''uid:'' @ Itoa uid @ '',gid:'' @ Itoa uid, ''--userns'']"
  let ?G = "[''--security'', ''gid:'' @ Itoa gid, ''--userns'']"
  let ?R = "appendRest ext pod c e []"
  have i: "\<exists>opts. initApptainerArgs ext dbg hpkEnv pod c e = opts @ securityOverride uid gid @ ?R
            \<and> ''--security'' \<notin> set opts \<and> ''--userns'' \<notin> set opts"
    unfolding init_args_shape [OF assms]
    using no_security_in_options [of dbg c]
    by (auto simp: dnsBind_def)
  have m: "\<exists>opts. mainApptainerArgs ext dbg hpkEnv pod c e = opts @ securityOverride uid gid @ ?R
            \<and> ''--security'' \<notin> set opts \<and> ''--userns'' \<notin> set opts"
    unfolding main_args_shape [OF assms]
    using no_security_in_options [of dbg c]
    by (auto simp: dnsBind_def)
  have u: "sublist ?U (opts @ securityOverride uid gid @ ?R)" if "uid \<noteq> 0" for opts
  proof -
    have "opts @ securityOverride uid gid @ ?R
          = opts @ ?U @ ((if gid \<noteq> 0 then ?G else []) @ ?R)"
      using that by (simp add: securityOverride_def)
    then show ?thesis by (metis sublist_appendI)
  qed
  have g: "sublist ?G (opts @ securityOverride uid gid @ ?R)" if "gid \<noteq> 0" for opts
  proof -
    have "opts @ securityOverride uid gid @ ?R
          = (opts @ (if uid \<noteq> 0 then ?U else [])) @ ?G @ ?R"
      using that by (simp add: securityOverride_def)
    then show ?thesis by (metis sublist_appendI)
  qed
  have z: "uid = 0 \<longrightarrow> securityOverride uid gid = (if gid \<noteq> 0 then ?G else [])"
    by (simp add: securityOverride_def)
  have y: "gid = 0 \<longrightarrow> securityOverride uid gid = (if uid \<noteq> 0 then ?U else [])"
    by (simp add: securityOverride_def)
  have s: "uid \<noteq> 0 \<longrightarrow> sublist ?U (initApptainerArgs ext dbg hpkEnv pod c e)
                     \<and> sublist ?U (mainApptainerArgs ext dbg hpkEnv pod c e)"
    using i m u by metis
  have t: "gid \<noteq> 0 \<longrightarrow> sublist ?G (initApptainerArgs ext dbg hpkEnv pod c e)
                     \<and> sublist ?G (mainApptainerArgs ext dbg hpkEnv pod c e)"
    using i m g by metis
  from i m s t z y show ?thesis by (intro conjI)
qed

theorem security_override_witness:
  "EffectiveRunAsUser (layout ''/k8s'' 1000 2000) demo app = (1000, 2000)
   \<and> mainApptainerArgs (layout ''/k8s'' 1000 2000) False True demo app False =
       [''--quiet'', ''exec'', ''--cleanenv'', ''--writable-tmpfs'', ''--no-mount'', ''home'',
        ''--unsquash'', ''--bind'',
        ''/scratch/etc/resolv.conf:/etc/resolv.conf,/scratch/etc/hosts:/etc/hosts,/k8s/default/demo/volumes/data:/data:rw,/k8s/default/demo/volumes/conf:/etc/conf:ro'',
        ''--security'', ''uid:1000,gid:1000'', ''--userns'', ''--security'', ''gid:2000'', ''--userns'',
        ''/k8s/images/busybox.sif'', ''/bin/sleep'', ''1'']
   \<and> sublist [''--security'', ''uid:1000,gid:1000'', ''--userns'']
         (initApptainerArgs (layout ''/k8s'' 1000 2000) False True demo app False)
   \<and> sublist [''--security'', ''gid:2000'', ''--userns'']
         (initApptainerArgs (layout ''/k8s'' 1000 2000) False True demo app False)"
proof -
  have h: "EffectiveRunAsUser (layout ''/k8s'' 1000 2000) demo app = (1000, 2000)"
    by (simp add: layout_def)
  have i1: "Itoa 1000 = ''1000''" and i2: "Itoa 2000 = ''2000''"
    by (simp_all add: Itoa_def digits.simps)
  have m: "mainApptainerArgs (layout ''/k8s'' 1000 2000) False True demo app False =
       [''--quiet'', ''exec'', ''--cleanenv'', ''--writable-tmpfs'', ''--no-mount'', ''home'',
        ''--unsquash'', ''--bind'',
        ''/scratch/etc/resolv.conf:/etc/resolv.conf,/scratch/etc/hosts:/etc/hosts,/k8s/default/demo/volumes/data:/data:rw,/k8s/default/demo/volumes/conf:/etc/conf:ro'',
        ''--security'', ''uid:1000,gid:1000'', ''--userns'', ''--security'', ''gid:2000'', ''--userns'',
        ''/k8s/images/busybox.sif'', ''/bin/sleep'', ''1'']"
    by (simp add: mainApptainerArgs_def layout_def demo_def app_def bindsOf_def bindOf_def
        accessMode_def initialArgs_def apptainerVerbosity_def executionMode_def dnsBind_def
        appendToLast_def appendSecurity_def appendRest_def elems_def i1 i2)
  from security_override [OF h, of False True False] h m show ?thesis
    by (simp add: i1 i2)
qed

text \<open>
  C9. For a container with at least one volume mount: \<^verbatim>\<open>handleInitContainers\<close> appends
  the comma-joined binds to the last element built so far, which is \<^verbatim>\<open>--unsquash\<close> when
  \<^verbatim>\<open>hpkEnv\<close> is false (no \<^verbatim>\<open>--bind\<close> option is passed) and the value of \<^verbatim>\<open>--bind\<close> when it
  is true; \<^verbatim>\<open>handleContainers\<close> appends them to the value of \<^verbatim>\<open>--bind\<close> when \<^verbatim>\<open>hpkEnv\<close> is
  true and passes a vector in which the binds do not occur when it is false.
\<close>

theorem bind_list_placement:
  assumes "EffectiveRunAsUser ext pod c = (uid, gid)" and "bindsOf ext pod c \<noteq> []"
  shows "initApptainerArgs ext dbg False pod c e =
           [apptainerVerbosity dbg, executionMode c, ''--cleanenv'', ''--writable-tmpfs'',
            ''--no-mount'', ''home'', ''--unsquash'' @ '','' @ Join (bindsOf ext pod c) '','']
           @ securityOverride uid gid @ appendRest ext pod c e []
       \<and> initApptainerArgs ext dbg True pod c e =
           [apptainerVerbosity dbg, executionMode c, ''--cleanenv'', ''--writable-tmpfs'',
            ''--no-mount'', ''home'', ''--unsquash'',
            ''--bind'', dnsBind @ '','' @ Join (bindsOf ext pod c) '','']
           @ securityOverride uid gid @ appendRest ext pod c e []
       \<and> mainApptainerArgs ext dbg True pod c e =
           [apptainerVerbosity dbg, executionMode c, ''--cleanenv'', ''--writable-tmpfs'',
            ''--no-mount'', ''home'', ''--unsquash'',
            ''--bind'', dnsBind @ '','' @ Join (bindsOf ext pod c) '','']
           @ securityOverride uid gid @ appendRest ext pod c e []
       \<and> mainApptainerArgs ext dbg False pod c e =
           [apptainerVerbosity dbg, executionMode c, ''--cleanenv'', ''--writable-tmpfs'',
            ''--no-mount'', ''home'', ''--unsquash'']
           @ securityOverride uid gid @ appendRest ext pod c e []"
  using assms(2)
  unfolding init_args_shape [OF assms(1)] main_args_shape [OF assms(1)]
  by (simp add: initialArgs_def)

theorem bind_list_placement_witness:
  "bindsOf (layout ''/k8s'' 0 0) demo app \<noteq> []
   \<and> initApptainerArgs (layout ''/k8s'' 0 0) False False demo app False =
       [''--quiet'', ''exec'', ''--cleanenv'', ''--writable-tmpfs'', ''--no-mount'', ''home'',
        ''--unsquash,/k8s/default/demo/volumes/data:/data:rw,/k8s/default/demo/volumes/conf:/etc/conf:ro'',
        ''/k8s/images/busybox.sif'', ''/bin/sleep'', ''1'']
   \<and> mainApptainerArgs (layout ''/k8s'' 0 0) False False demo app False =
       [''--quiet'', ''exec'', ''--cleanenv'', ''--writable-tmpfs'', ''--no-mount'', ''home'',
        ''--unsquash'', ''/k8s/images/busybox.sif'', ''/bin/sleep'', ''1'']"
proof -
  have h: "EffectiveRunAsUser (layout ''/k8s'' 0 0) demo app = (0, 0)"
    by (simp add: layout_def)
  have b: "bindsOf (layout ''/k8s'' 0 0) demo app =
             [''/k8s/default/demo/volumes/data:/data:rw'', ''/k8s/default/demo/volumes/conf:/etc/conf:ro'']"
    by (simp add: layout_def demo_def app_def bindsOf_def bindOf_def accessMode_def)
  have n: "bindsOf (layout ''/k8s'' 0 0) demo app \<noteq> []"
    by (simp add: b)
  have r: "appendRest (layout ''/k8s'' 0 0) demo app False [] = [''/k8s/images/busybox.sif'', ''/bin/sleep'', ''1'']"
    by (simp add: appendRest_def layout_def app_def elems_def)
  have x: "executionMode app = ''exec''"
    by (simp add: executionMode_def app_def)
  from bind_list_placement [OF h n, of False False] show ?thesis
    by (simp add: b r x securityOverride_def apptainerVerbosity_def)
qed

section \<open>Order of the container life cycles\<close>

lemma lifecycle_append: "lifecycle (a @ b) = lifecycle a @ lifecycle b"
  by (induction a rule: lifecycle.induct) simp_all
















lemma launch_calm:
  "fst (launch (layout ''/k8s'' 0 0) calm demo) = Waiting
   \<and> lifecycle (fst (snd (launch (layout ''/k8s'' 0 0) calm demo)))
       = [Started ''prep'', Exited ''prep'' 0,
          ExitCodeWritten ''/k8s/default/demo/prep/.exitCode'' ''0'', Spawned ''app'']
   \<and> map fst (snd (snd (launch (layout ''/k8s'' 0 0) calm demo))) = [app]"
proof -
  have n: "cName app = ''app''" by (simp add: app_def)
  have p: "podNamespace demo = ''default''" "podName demo = ''demo''" "InitContainers demo = [prep]"
    "Containers demo = [app]" by (simp_all add: demo_def)
  have q: "cName prep = ''prep''" by (simp add: prep_def)
  show ?thesis
    by (simp add: launch_def prepareContainers_def prepareDNS_def announceIP_def cleanEnvironment_def
      envVars_def calm_def layout_def Let_def handleInitContainers_def handleContainers_def
      initContainerStep_def mainContainerStep_def envFileHandling_def fileExists_def statEvents_def
      lifecycle_append Itoa_0 n p q)
qed


section \<open>Probing the env file\<close>

lemma noPanicIn_append: "noPanicIn w t (a @ b) = (noPanicIn w t a \<and> noPanicIn w (t @ a) b)"
  by (induction w t a rule: noPanicIn.induct) simp_all

lemma noPanicIn_statEvents: "noPanicIn w t (statEvents p) = (fileExists w t p \<noteq> Panic)"
  by (simp add: statEvents_def fileExists_def)

lemma endsInPanic_not_noPanicIn: "endsInPanic w t added \<Longrightarrow> \<not> noPanicIn w t added"
  by (auto simp: endsInPanic_def noPanicIn_append)

lemma endsInPanic_statEvents: "fileExists w t p = Panic \<Longrightarrow> endsInPanic w t (statEvents p)"
  unfolding endsInPanic_def
  by (rule exI [of _ "[]"], rule exI [of _ p]) (auto simp: statEvents_def fileExists_def)

lemma probed_append:
  assumes "probed w t a False" and "probed w (t @ a) b x"
  shows "probed w t (a @ b) x"
proof (cases x)
  case False
  with assms show ?thesis by (simp add: probed_def noPanicIn_append)
next
  case True
  with assms(2) obtain b0 p where b: "b = b0 @ [EvStat p]" "noPanicIn w (t @ a) b0"
    "fileExists w ((t @ a) @ b0) p = Panic"
    by (auto simp: probed_def endsInPanic_def)
  have "endsInPanic w t (a @ b)"
    unfolding endsInPanic_def
    apply (rule exI [of _ "a @ b0"], rule exI [of _ p])
    using assms(1) b by (simp add: probed_def noPanicIn_append)
  with True show ?thesis by (simp add: probed_def)
qed

lemma probed_statEvents: "probed w t (statEvents p) (fileExists w t p = Panic)"
  by (simp add: probed_def noPanicIn_statEvents endsInPanic_statEvents)

lemma noPanicIn_no_stat: "\<forall>q. EvStat q \<notin> set es \<Longrightarrow> noPanicIn w t es"
proof (induction es arbitrary: t)
  case Nil
  then show ?case by simp
next
  case (Cons e es)
  then show ?case by (cases e) auto
qed

lemma probed_no_stat: "\<forall>q. EvStat q \<notin> set es \<Longrightarrow> probed w t es False"
  by (simp add: probed_def noPanicIn_no_stat)

lemma envFileHandling_probed:
  assumes "envFileHandling ext w pod c t = (r, t')"
  shows "\<exists>added. t' = t @ added \<and> probed w t added (r = Panic)"
proof -
  let ?p = "EnvFilePath ext pod (cName c)"
  let ?n = "envFileName ext pod c"
  have s: "probed w t (statEvents ?p) (fileExists w t ?p = Panic)" by (rule probed_statEvents)
  from assms have
    "(r = Panic \<and> fileExists w t ?p = Panic \<and> t' = t @ statEvents ?p)
     \<or> (r \<noteq> Panic \<and> fileExists w t ?p \<noteq> Panic
         \<and> (t' = t @ (statEvents ?p @ []) \<or> t' = t @ (statEvents ?p @ [EvSh ?p])
            \<or> (\<exists>out. t' = t @ (statEvents ?p @ [EvSh ?p, EvWriteFile EnvFile ?n out]))))"
    by (auto simp: envFileHandling_def Let_def split: go.splits bool.splits option.splits if_splits)
  then show ?thesis
  proof (elim disjE conjE exE)
    assume "r = Panic" "fileExists w t ?p = Panic" "t' = t @ statEvents ?p"
    with s show ?thesis by auto
  next
    assume a: "r \<noteq> Panic" "fileExists w t ?p \<noteq> Panic" "t' = t @ (statEvents ?p @ [])"
    with s show ?thesis by (intro exI [of _ "statEvents ?p @ []"]) simp
  next
    assume a: "r \<noteq> Panic" "fileExists w t ?p \<noteq> Panic" "t' = t @ (statEvents ?p @ [EvSh ?p])"
    with s have "probed w t (statEvents ?p @ [EvSh ?p]) False"
      by (intro probed_append) (simp_all add: probed_def)
    with a show ?thesis by (intro exI [of _ "statEvents ?p @ [EvSh ?p]"]) simp
  next
    fix out
    assume a: "r \<noteq> Panic" "fileExists w t ?p \<noteq> Panic"
      "t' = t @ (statEvents ?p @ [EvSh ?p, EvWriteFile EnvFile ?n out])"
    with s have "probed w t (statEvents ?p @ [EvSh ?p, EvWriteFile EnvFile ?n out]) False"
      by (intro probed_append) (simp_all add: probed_def)
    with a show ?thesis
      by (intro exI [of _ "statEvents ?p @ [EvSh ?p, EvWriteFile EnvFile ?n out]"]) simp
  qed
qed

lemma initContainerStep_probed:
  assumes "initContainerStep ext w h pod c t = (r, t')"
  shows "\<exists>added. t' = t @ added \<and> probed w t added (r = Panic)"
proof -
  obtain r1 t1 where e: "envFileHandling ext w pod c t = (r1, t1)"
    by (cases "envFileHandling ext w pod c t")
  from envFileHandling_probed [OF e] obtain a1 where a1: "t1 = t @ a1" "probed w t a1 (r1 = Panic)"
    by blast
  show ?thesis
  proof (cases "r1 = Return None")
    case False
    with assms e have "r = r1 \<and> t' = t1"
      by (auto simp: initContainerStep_def split: go.splits option.splits)
    with a1 show ?thesis by auto
  next
    case True
    let ?p = "EnvFilePath ext pod (cName c)"
    let ?t2 = "t1 @ statEvents ?p"
    from True a1 have p1: "probed w t a1 False" by simp
    have s: "probed w (t @ a1) (statEvents ?p) (fileExists w t1 ?p = Panic)"
      using probed_statEvents [of w t1 ?p] a1(1) by simp
    from assms e True have
      "(r = Panic \<and> fileExists w t1 ?p = Panic \<and> t' = ?t2)
       \<or> (r \<noteq> Panic \<and> fileExists w t1 ?p \<noteq> Panic
           \<and> (\<exists>rest. t' = ?t2 @ rest \<and> (\<forall>q. EvStat q \<notin> set rest)))"
      by (auto simp: initContainerStep_def Let_def split: go.splits option.splits if_splits prod.splits)
    then show ?thesis
    proof (elim disjE conjE exE)
      assume x: "r = Panic" "fileExists w t1 ?p = Panic" "t' = ?t2"
      with s p1 have "probed w t (a1 @ statEvents ?p) True"
        by (intro probed_append) simp_all
      with x a1 show ?thesis by (intro exI [of _ "a1 @ statEvents ?p"]) simp
    next
      fix rest
      assume x: "r \<noteq> Panic" "fileExists w t1 ?p \<noteq> Panic" "t' = ?t2 @ rest" "\<forall>q. EvStat q \<notin> set rest"
      with s p1 have pa: "probed w t (a1 @ statEvents ?p) False"
        by (intro probed_append) simp_all
      have "probed w t ((a1 @ statEvents ?p) @ rest) False"
        by (rule probed_append [OF pa probed_no_stat [OF x(4)]])
      with x a1 show ?thesis by (intro exI [of _ "(a1 @ statEvents ?p) @ rest"]) simp
    qed
  qed
qed

lemma mainContainerStep_probed:
  assumes "mainContainerStep ext w h pod c t = (r, t', tasks)"
  shows "\<exists>added. t' = t @ added \<and> probed w t added (r = Panic)"
proof -
  obtain r1 t1 where e: "envFileHandling ext w pod c t = (r1, t1)"
    by (cases "envFileHandling ext w pod c t")
  from envFileHandling_probed [OF e] obtain a1 where a1: "t1 = t @ a1" "probed w t a1 (r1 = Panic)"
    by blast
  show ?thesis
  proof (cases "r1 = Return None")
    case False
    with assms e have "r = r1 \<and> t' = t1"
      by (auto simp: mainContainerStep_def split: go.splits option.splits)
    with a1 show ?thesis by auto
  next
    case True
    let ?p = "EnvFilePath ext pod (cName c)"
    let ?t2 = "t1 @ statEvents ?p"
    from True a1 have p1: "probed w t a1 False" by simp
    have s: "probed w (t @ a1) (statEvents ?p) (fileExists w t1 ?p = Panic)"
      using probed_statEvents [of w t1 ?p] a1(1) by simp
    from assms e True have
      "(r = Panic \<and> fileExists w t1 ?p = Panic \<and> t' = ?t2)
       \<or> (r \<noteq> Panic \<and> fileExists w t1 ?p \<noteq> Panic
           \<and> (\<exists>rest. t' = ?t2 @ rest \<and> (\<forall>q. EvStat q \<notin> set rest)))"
      by (auto simp: mainContainerStep_def Let_def split: go.splits option.splits if_splits prod.splits)
    then show ?thesis
    proof (elim disjE conjE exE)
      assume x: "r = Panic" "fileExists w t1 ?p = Panic" "t' = ?t2"
      with s p1 have "probed w t (a1 @ statEvents ?p) True"
        by (intro probed_append) simp_all
      with x a1 show ?thesis by (intro exI [of _ "a1 @ statEvents ?p"]) simp
    next
      fix rest
      assume x: "r \<noteq> Panic" "fileExists w t1 ?p \<noteq> Panic" "t' = ?t2 @ rest" "\<forall>q. EvStat q \<notin> set rest"
      with s p1 have pa: "probed w t (a1 @ statEvents ?p) False"
        by (intro probed_append) simp_all
      have "probed w t ((a1 @ statEvents ?p) @ rest) False"
        by (rule probed_append [OF pa probed_no_stat [OF x(4)]])
      with x a1 show ?thesis by (intro exI [of _ "(a1 @ statEvents ?p) @ rest"]) simp
    qed
  qed
qed

lemma initContainersLoop_probed:
  "initContainersLoop ext w h pod cs t = (r, t') \<Longrightarrow>
   \<exists>added. t' = t @ added \<and> probed w t added (r = Panic)"
proof (induction cs arbitrary: t)
  case Nil
  then show ?case by (auto simp: probed_def)
next
  case (Cons c cs)
  obtain r1 t1 where s: "initContainerStep ext w h pod c t = (r1, t1)"
    by (cases "initContainerStep ext w h pod c t")
  from initContainerStep_probed [OF s] obtain a1 where a1: "t1 = t @ a1" "probed w t a1 (r1 = Panic)"
    by blast
  show ?case
  proof (cases "r1 = Return None")
    case True
    with Cons.prems s have "initContainersLoop ext w h pod cs t1 = (r, t')" by simp
    from Cons.IH [OF this] obtain a2 where a2: "t' = t1 @ a2" "probed w t1 a2 (r = Panic)" by blast
    from True a1 have "probed w t a1 False" by simp
    with a2 a1 have "probed w t (a1 @ a2) (r = Panic)" by (intro probed_append) simp_all
    with a1 a2 show ?thesis by (intro exI [of _ "a1 @ a2"]) simp
  next
    case False
    with Cons.prems s have "r = r1" "t' = t1" by (auto split: go.splits option.splits)
    with a1 show ?thesis by auto
  qed
qed

lemma mainContainersLoop_probed:
  "mainContainersLoop ext w h pod cs t = (r, t', tasks) \<Longrightarrow>
   \<exists>added. t' = t @ added \<and> probed w t added (r = Panic)"
proof (induction cs arbitrary: t r t' tasks)
  case Nil
  then show ?case by (auto simp: probed_def)
next
  case (Cons c cs)
  obtain r1 t1 k1 where s: "mainContainerStep ext w h pod c t = (r1, t1, k1)"
    by (cases "mainContainerStep ext w h pod c t")
  from mainContainerStep_probed [OF s] obtain a1 where a1: "t1 = t @ a1" "probed w t a1 (r1 = Panic)"
    by blast
  show ?case
  proof (cases "r1 = Return None")
    case True
    obtain r2 t2 k2 where l: "mainContainersLoop ext w h pod cs t1 = (r2, t2, k2)"
      by (cases "mainContainersLoop ext w h pod cs t1")
    from Cons.IH [OF l] obtain a2 where a2: "t2 = t1 @ a2" "probed w t1 a2 (r2 = Panic)" by blast
    from True Cons.prems s l have e: "r = r2" "t' = t2" by auto
    from True a1 have "probed w t a1 False" by simp
    with a2 a1 have "probed w t (a1 @ a2) (r2 = Panic)" by (intro probed_append) simp_all
    with a1 a2 e show ?thesis by (intro exI [of _ "a1 @ a2"]) simp
  next
    case False
    with Cons.prems s have "r = r1" "t' = t1" by (auto split: go.splits option.splits)
    with a1 show ?thesis by auto
  qed
qed

lemma unsetAll_no_stat:
  "unsetAll w names t = (r, t') \<Longrightarrow> \<exists>added. t' = t @ added \<and> (\<forall>q. EvStat q \<notin> set added)"
proof (induction names arbitrary: t)
  case Nil
  then show ?case by simp
next
  case (Cons name names)
  show ?case
  proof (cases "unsetenvOk w t name")
    case False
    with Cons.prems show ?thesis by simp
  next
    case True
    with Cons.prems have "unsetAll w names (t @ [EvUnsetenv name]) = (r, t')" by simp
    from Cons.IH [OF this] obtain a where "t' = (t @ [EvUnsetenv name]) @ a" "\<forall>q. EvStat q \<notin> set a"
      by blast
    then show ?thesis
      by (intro exI [of _ "EvUnsetenv name # a"]) simp
  qed
qed

lemma prepareContainers_no_stat:
  assumes "prepareContainers ext w pod t = (r, t')"
  shows "\<exists>added. t' = t @ added \<and> (\<forall>q. EvStat q \<notin> set added)"
proof -
  obtain r1 t1 where 1: "prepareDNS w pod t = (r1, t1)" by (cases "prepareDNS w pod t")
  obtain r2 t2 where 2: "announceIP ext w pod t1 = (r2, t2)" by (cases "announceIP ext w pod t1")
  obtain r3 t3 where 3: "cleanEnvironment w t2 = (r3, t3)" by (cases "cleanEnvironment w t2")
  from 1 have "\<exists>a. t1 = t @ a \<and> (\<forall>q. EvStat q \<notin> set a)"
    by (auto simp: prepareDNS_def Let_def split: if_splits option.splits)
  then obtain a1 where a1: "t1 = t @ a1" "\<forall>q. EvStat q \<notin> set a1" by blast
  from 2 have "\<exists>a. t2 = t1 @ a \<and> (\<forall>q. EvStat q \<notin> set a)"
    by (auto simp: announceIP_def Let_def split: if_splits option.splits)
  then obtain a2 where a2: "t2 = t1 @ a2" "\<forall>q. EvStat q \<notin> set a2" by blast
  from unsetAll_no_stat [OF 3 [unfolded cleanEnvironment_def]]
  obtain a3 where a3: "t3 = t2 @ a3" "\<forall>q. EvStat q \<notin> set a3" by blast
  from assms 1 2 3 have "t' = t1 \<or> t' = t2 \<or> t' = t3"
    by (auto simp: prepareContainers_def split: option.splits)
  then show ?thesis
  proof (elim disjE)
    assume "t' = t1" then show ?thesis using a1 by blast
  next
    assume "t' = t2" then show ?thesis using a1 a2
      by (intro exI [of _ "a1 @ a2"]) simp
  next
    assume "t' = t3" then show ?thesis using a1 a2 a3
      by (intro exI [of _ "a1 @ a2 @ a3"]) simp
  qed
qed

lemma launch_probed:
  assumes "launch ext w pod = (out, t, tasks)"
  shows "probed w [] t (out = Exit 2)"
proof -
  let ?I = "InitContainers pod"
  obtain r0 t0 where p: "prepareContainers ext w pod [] = (r0, t0)"
    by (cases "prepareContainers ext w pod []")
  from prepareContainers_no_stat [OF p] have "\<forall>q. EvStat q \<notin> set t0" by auto
  then have p0: "probed w [] t0 False" by (rule probed_no_stat)
  show ?thesis
  proof (cases r0)
    case (Some e)
    with assms p have "out = Exit 0" "t = t0" by (auto simp: launch_def)
    with p0 show ?thesis by simp
  next
    case None
    obtain r1 t1 where i: "initContainersLoop ext w True pod ?I t0 = (r1, t1)"
      by (cases "initContainersLoop ext w True pod ?I t0")
    from initContainersLoop_probed [OF i] obtain a1 where
      1: "t1 = t0 @ a1" "probed w t0 a1 (r1 = Panic)" by blast
    have i': "(if length ?I > 0 then handleInitContainers ext w pod True t0 else (Return None, t0)) = (r1, t1)"
      using i by (cases ?I) (auto simp: handleInitContainers_def)
    from p0 1 have pt1: "probed w [] t1 (r1 = Panic)"
      using probed_append [of w "[]" t0 a1 "r1 = Panic"] by simp
    show ?thesis
    proof (cases "r1 = Return None")
      case False
      with assms p None i' have "t = t1" "(out = Exit 2) = (r1 = Panic)"
        by (auto simp: launch_def split: go.splits option.splits)
      with pt1 show ?thesis by simp
    next
      case True
      obtain r2 t2 k2 where m: "mainContainersLoop ext w True pod (Containers pod) t1 = (r2, t2, k2)"
        by (cases "mainContainersLoop ext w True pod (Containers pod) t1")
      from mainContainersLoop_probed [OF m] obtain a2 where
        2: "t2 = t1 @ a2" "probed w t1 a2 (r2 = Panic)" by blast
      from assms p None i' True m have o: "t = t2" "(out = Exit 2) = (r2 = Panic)"
        by (auto simp: launch_def handleContainers_def split: go.splits option.splits)
      from True pt1 have "probed w [] t1 False" by simp
      with 2 have "probed w [] (t1 @ a2) (r2 = Panic)"
        using probed_append [of w "[]" t1 a2 "r2 = Panic"] by simp
      with o 2 show ?thesis by simp
    qed
  qed
qed

text \<open>
  C10. \<^verbatim>\<open>fileExists\<close> returns false for the empty name and for a path whose \<^verbatim>\<open>os.Stat\<close>
  error is a not-exist error; it returns true exactly when the name is not empty and the
  path exists and is not a directory; it panics exactly when the name is not empty and
  \<^verbatim>\<open>os.Stat\<close> fails with any other error. Such a panic on a container's env-file path
  leaves the loop body of either launcher function as a panic. In every run the program
  ends by a panic (status 2) exactly when some probe of the run panics, whichever
  container and whichever of its two probes it is, and that probe is then the last
  event of the run: the probing is total only where every stat error is a not-exist
  error.
\<close>

theorem fileExists_cases:
  "fileExists w t '''' = Return False
   \<and> (stat w t filename = StatError True \<longrightarrow> fileExists w t filename = Return False)
   \<and> (fileExists w t filename = Return True \<longleftrightarrow> filename \<noteq> '''' \<and> stat w t filename = FileInfo False)
   \<and> (fileExists w t filename = Panic \<longleftrightarrow> filename \<noteq> '''' \<and> stat w t filename = StatError False)
   \<and> (fileExists w t (EnvFilePath ext pod (cName c)) = Panic \<longrightarrow>
        fst (initContainerStep ext w hpkEnv pod c t) = Panic
        \<and> fst (mainContainerStep ext w hpkEnv pod c t) = Panic)
   \<and> (prepareContainers ext w pod [] = (None, t) \<and> InitContainers pod = c # cs
        \<and> fileExists w t (EnvFilePath ext pod (cName c)) = Panic \<longrightarrow>
        fst (launch ext w pod) = Exit 2)
   \<and> (launch ext w pod = (out, tr, tasks) \<longrightarrow>
        (out = Exit 2 \<longleftrightarrow> \<not> noPanicIn w [] tr)
        \<and> (out = Exit 2 \<longrightarrow>
             (\<exists>a p. tr = a @ [EvStat p] \<and> noPanicIn w [] a \<and> fileExists w a p = Panic)))"
proof -
  have a: "fileExists w t '''' = Return False"
    by (simp add: fileExists_def)
  have b: "stat w t filename = StatError True \<longrightarrow> fileExists w t filename = Return False"
    by (simp add: fileExists_def)
  have c: "fileExists w t filename = Return True \<longleftrightarrow> filename \<noteq> '''' \<and> stat w t filename = FileInfo False"
    by (cases "stat w t filename") (auto simp: fileExists_def)
  have d: "fileExists w t filename = Panic \<longleftrightarrow> filename \<noteq> '''' \<and> stat w t filename = StatError False"
    by (cases "stat w t filename") (auto simp: fileExists_def)
  have e: "fst (envFileHandling ext w pod c t) = Panic"
    if "fileExists w t (EnvFilePath ext pod (cName c)) = Panic"
    using that by (simp add: envFileHandling_def Let_def)
  have f: "fst (initContainerStep ext w h pod c t) = Panic
           \<and> fst (mainContainerStep ext w h pod c t) = Panic"
    if "fileExists w t (EnvFilePath ext pod (cName c)) = Panic" for h
    using e [OF that]
    by (cases "envFileHandling ext w pod c t")
       (simp add: initContainerStep_def mainContainerStep_def)
  have g: "fst (launch ext w pod) = Exit 2"
    if "prepareContainers ext w pod [] = (None, t)" "InitContainers pod = c # cs"
       "fileExists w t (EnvFilePath ext pod (cName c)) = Panic"
  proof -
    from f [OF that(3)] have "fst (initContainerStep ext w True pod c t) = Panic"
      by simp
    then have "fst (handleInitContainers ext w pod True t) = Panic"
      using that(2)
      by (cases "initContainerStep ext w True pod c t") (simp add: handleInitContainers_def)
    then show ?thesis
      using that(1,2)
      by (cases "handleInitContainers ext w pod True t") (simp add: launch_def)
  qed
  have new: "(out = Exit 2 \<longleftrightarrow> \<not> noPanicIn w [] tr)
        \<and> (out = Exit 2 \<longrightarrow>
             (\<exists>a p. tr = a @ [EvStat p] \<and> noPanicIn w [] a \<and> fileExists w a p = Panic))"
    if l: "launch ext w pod = (out, tr, tasks)"
  proof (cases "out = Exit 2")
    case True
    with launch_probed [OF l] have e: "endsInPanic w [] tr" by (simp add: probed_def)
    from endsInPanic_not_noPanicIn [OF e] e True show ?thesis
      by (simp add: endsInPanic_def)
  next
    case False
    with launch_probed [OF l] show ?thesis by (simp add: probed_def)
  qed
  from a b c d f g new show ?thesis by blast
qed

lemma prepareContainers_calm:
  "fst (prepareContainers (layout ''/k8s'' 0 0) (calm\<lparr>stat := s\<rparr>) demo []) = None"
  by (simp add: prepareContainers_def prepareDNS_def announceIP_def cleanEnvironment_def
      envVars_def calm_def layout_def Let_def)

lemma launch_deniedLater:
  "fst (launch (layout ''/k8s'' 0 0) deniedLater demo) = Exit 2"
proof -
  have n: "cName app = ''app''" by (simp add: app_def)
  have p: "podNamespace demo = ''default''" "podName demo = ''demo''" "InitContainers demo = [prep]"
    "Containers demo = [app]" by (simp_all add: demo_def)
  have q: "cName prep = ''prep''" by (simp add: prep_def)
  show ?thesis
    by (simp add: launch_def prepareContainers_def prepareDNS_def announceIP_def cleanEnvironment_def
      envVars_def deniedLater_def calm_def layout_def Let_def handleInitContainers_def handleContainers_def
      initContainerStep_def mainContainerStep_def envFileHandling_def fileExists_def statEvents_def
      n p q)
qed

theorem fileExists_cases_witness:
  "stat denied [] ''/k8s/default/demo/prep/.env'' = StatError False
   \<and> fileExists denied [] ''/k8s/default/demo/prep/.env'' = Panic
   \<and> fileExists calm [] ''/k8s/default/demo/prep/.env'' = Return False
   \<and> fst (launch (layout ''/k8s'' 0 0) denied demo) = Exit 2
   \<and> fst (launch (layout ''/k8s'' 0 0) deniedLater demo) = Exit 2
   \<and> \<not> noPanicIn deniedLater [] (fst (snd (launch (layout ''/k8s'' 0 0) deniedLater demo)))
   \<and> fst (launch (layout ''/k8s'' 0 0) calm demo) = Waiting
   \<and> noPanicIn calm [] (fst (snd (launch (layout ''/k8s'' 0 0) calm demo)))"
proof -
  let ?t = "snd (prepareContainers (layout ''/k8s'' 0 0) denied demo [])"
  let ?E = "layout ''/k8s'' 0 0"
  have p: "prepareContainers ?E denied demo [] = (None, ?t)"
    using prepareContainers_calm [of "\<lambda>t p. StatError False"]
    by (simp add: denied_def prod_eq_iff)
  have i: "InitContainers demo = prep # []"
    by (simp add: demo_def)
  have e: "EnvFilePath ?E demo (cName prep) = ''/k8s/default/demo/prep/.env''"
    by (simp add: layout_def demo_def prep_def)
  have s: "stat denied t ''/k8s/default/demo/prep/.env'' = StatError False" for t
    by (simp add: denied_def)
  have c: "stat calm [] ''/k8s/default/demo/prep/.env'' = StatError True"
    by (simp add: calm_def)
  let ?L = "launch ?E deniedLater demo"
  have l: "?L = (fst ?L, fst (snd ?L), snd (snd ?L))" by simp
  let ?C = "launch ?E calm demo"
  have lc: "?C = (fst ?C, fst (snd ?C), snd (snd ?C))" by simp
  have w: "fst ?C = Waiting" using launch_calm by simp
  have 1: "\<not> noPanicIn deniedLater [] (fst (snd ?L))"
    using fileExists_cases [of deniedLater "[]" "[]" ?E demo prep True "[]" "fst ?L" "fst (snd ?L)" "snd (snd ?L)"]
      l launch_deniedLater by simp
  have 2: "noPanicIn calm [] (fst (snd ?C))"
    using fileExists_cases [of calm "[]" "[]" ?E demo prep True "[]" "fst ?C" "fst (snd ?C)" "snd (snd ?C)"]
      lc w by simp
  from fileExists_cases [of denied ?t "''/k8s/default/demo/prep/.env''" ?E demo prep True "[]"]
       fileExists_cases [of denied "[]" "''/k8s/default/demo/prep/.env''" ?E demo prep True "[]"]
       fileExists_cases [of calm "[]" "''/k8s/default/demo/prep/.env''" ?E demo prep True "[]"]
       p i e s c 1 2 w launch_deniedLater
  show ?thesis by simp
qed

section \<open>Pod acquisition\<close>

lemma getPodDetails_bound: "fst (getPodDetails w n) \<le> 10 * Second"
  by (cases "podsGet w n") (simp add: getPodDetails_def)

lemma getPodDetails_podsGet:
  "fst (getPodDetails w n) = min (fst (podsGet w n)) (10 * Second)
   \<and> (snd (getPodDetails w n) \<noteq> None) = (fst (podsGet w n) < 10 * Second \<and> snd (podsGet w n) \<noteq> None)"
  by (cases "podsGet w n") (simp add: getPodDetails_def)

lemma acquire_pod_loop_paced:
  "acquire_pod_loop w deadline now n log = (ok, now', n', log') \<Longrightarrow>
   \<exists>new. log' = log @ new \<and> n' = n + length new \<and> paced w deadline now n new
     \<and> (if ok then new \<noteq> [] \<and> snd (snd (last new)) \<and> now' = fst (snd (last new))
        else deadline \<le> now' \<and> (\<forall>p\<in>set new. \<not> snd (snd p))
             \<and> now' = (if new = [] then now else fst (snd (last new)) + 5 * Second))"
proof (induction w deadline now n log rule: acquire_pod_loop.induct)
  case (1 w deadline now n log)
  show ?case
  proof (cases "deadline \<le> now")
    case True
    with "1.prems" show ?thesis
      by (intro exI [of _ "[]"]) (auto simp: acquire_pod_loop.simps [of w deadline now n log])
  next
    case False
    obtain d r where g: "getPodDetails w n = (d, r)" by (cases "getPodDetails w n")
    show ?thesis
    proof (cases r)
      case (Some pod)
      with "1.prems" False g have "ok" "now' = now + d" "n' = Suc n" "log' = log @ [(now, now + d, True)]"
        by (auto simp: acquire_pod_loop.simps [of w deadline now n log])
      with False g Some show ?thesis
        by (intro exI [of _ "[(now, now + d, True)]"]) simp
    next
      case None
      with "1.prems" False g have
        r: "acquire_pod_loop w deadline (now + d + 5 * Second) (Suc n) (log @ [(now, now + d, False)])
            = (ok, now', n', log')"
        by (simp add: acquire_pod_loop.simps [of w deadline now n log])
      from "1.IH" [OF False g [symmetric] None r] obtain new where
        n: "log' = (log @ [(now, now + d, False)]) @ new" "n' = Suc n + length new"
           "paced w deadline (now + d + 5 * Second) (Suc n) new"
           "if ok then new \<noteq> [] \<and> snd (snd (last new)) \<and> now' = fst (snd (last new))
            else deadline \<le> now' \<and> (\<forall>p\<in>set new. \<not> snd (snd p))
                 \<and> now' = (if new = [] then now + d + 5 * Second else fst (snd (last new)) + 5 * Second)"
        by blast
      show ?thesis
        apply (rule exI [of _ "(now, now + d, False) # new"])
        using n False g None by (auto split: if_splits)
    qed
  qed
qed

lemma paced_nth:
  "paced w deadline now n ps \<Longrightarrow> i < length ps \<Longrightarrow>
     fst (ps ! i) < deadline
   \<and> fst (snd (ps ! i)) = fst (ps ! i) + fst (getPodDetails w (n + i))
   \<and> snd (snd (ps ! i)) = (snd (getPodDetails w (n + i)) \<noteq> None)
   \<and> (Suc i < length ps \<longrightarrow>
        \<not> snd (snd (ps ! i)) \<and> fst (ps ! Suc i) = fst (snd (ps ! i)) + 5 * Second)"
proof (induction w deadline now n ps arbitrary: i rule: paced.induct)
  case (1 w deadline now n)
  then show ?case by simp
next
  case (2 w deadline now n b e ok ps)
  show ?case
  proof (cases i)
    case 0
    with "2.prems" show ?thesis
      by (cases ps) auto
  next
    case (Suc j)
    with "2.prems" have ne: "ps \<noteq> []" and j: "j < length ps" by auto
    with "2.prems" have p: "\<not> ok" "paced w deadline (e + 5 * Second) (Suc n) ps" by auto
    from "2.IH" [OF p(2) j] Suc show ?thesis by auto
  qed
qed

lemma paced_hd: "paced w deadline now n ps \<Longrightarrow> ps \<noteq> [] \<Longrightarrow> fst (hd ps) = now"
  by (cases ps) auto

lemma paced_bounds:
  "paced w deadline now n ps \<Longrightarrow> i < length ps \<Longrightarrow>
     now + 5 * Second * i \<le> fst (ps ! i) \<and> fst (ps ! i) \<le> now + 15 * Second * i"
proof (induction i)
  case 0
  then show ?case using paced_hd [of w deadline now n ps] by (cases ps) auto
next
  case (Suc i)
  then have i: "i < length ps" by simp
  from Suc.IH [OF Suc.prems(1) i] have b: "now + 5 * Second * i \<le> fst (ps ! i)"
    "fst (ps ! i) \<le> now + 15 * Second * i" by simp_all
  from paced_nth [OF Suc.prems(1) i] Suc.prems(2) have
    e: "fst (snd (ps ! i)) = fst (ps ! i) + fst (getPodDetails w (n + i))"
    and s: "fst (ps ! Suc i) = fst (snd (ps ! i)) + 5 * Second"
    by auto
  from getPodDetails_bound [of w "n + i"] have d: "fst (getPodDetails w (n + i)) \<le> 10 * Second" .
  from b e s d show ?case by (simp add: Second_def algebra_simps)
qed

text \<open>
  C5, as the code has it. The acquisition loop makes at least one request, the first
  when the loop is entered. Every request begins before the deadline of 5 minutes and
  returns when the API answers or after 10 seconds, whichever is earlier; it returns the
  pod exactly when the API answers with the pod in less than 10 seconds. A request is
  followed by another only if it failed, and the next one begins exactly 5 seconds after
  it returned, so between 5 and 15 seconds after it began. The loop always ends: either
  its last request returned the pod, or no request did, the loop head was reached at or
  after the deadline, 5 seconds after the last request returned, after between 20 and
  60 requests, and the program exits with status 1. After a successful loop of
  \<open>length log\<close> requests the pod is requested once more (request number \<open>length log\<close>,
  under the same 10 seconds), and that answer is the pod that is launched; a failure of
  that request is a panic (status 2).
\<close>

theorem pod_acquisition:
  assumes "acquire_pod_loop w (start + 5 * Minute) start 0 [] = (ok, now, n, log)"
    and "podID \<noteq> ''''" and "namespaceID \<noteq> ''''" and "kubeconfigOk w" and "clientsetOk w"
  shows "n = length log \<and> log \<noteq> [] \<and> fst (hd log) = start
     \<and> (\<forall>i<length log.
           fst (log ! i) < start + 5 * Minute
         \<and> fst (snd (log ! i)) = fst (log ! i) + min (fst (podsGet w i)) (10 * Second)
         \<and> snd (snd (log ! i)) = (fst (podsGet w i) < 10 * Second \<and> snd (podsGet w i) \<noteq> None)
         \<and> (Suc i < length log \<longrightarrow>
              \<not> snd (snd (log ! i))
              \<and> fst (log ! Suc i) = fst (snd (log ! i)) + 5 * Second
              \<and> fst (log ! i) + 5 * Second \<le> fst (log ! Suc i)
              \<and> fst (log ! Suc i) \<le> fst (log ! i) + 15 * Second))
     \<and> (if ok
        then snd (snd (last log)) \<and> now = fst (snd (last log))
             \<and> main ext w start podID namespaceID =
                 (if fst (podsGet w (length log)) < 10 * Second
                  then (case snd (podsGet w (length log)) of
                          None \<Rightarrow> (Exit 2, [], [])
                        | Some pod \<Rightarrow> launch ext w pod)
                  else (Exit 2, [], []))
        else (\<forall>p\<in>set log. \<not> snd (snd p))
             \<and> now = fst (snd (last log)) + 5 * Second \<and> start + 5 * Minute \<le> now
             \<and> 20 \<le> length log \<and> length log \<le> 60
             \<and> main ext w start podID namespaceID = (Exit 1, [], []))"
proof -
  from acquire_pod_loop_paced [OF assms(1)] have
    n: "n = length log" and p: "paced w (start + 5 * Minute) start 0 log"
    and f: "if ok then log \<noteq> [] \<and> snd (snd (last log)) \<and> now = fst (snd (last log))
            else start + 5 * Minute \<le> now \<and> (\<forall>p\<in>set log. \<not> snd (snd p))
                 \<and> now = (if log = [] then start else fst (snd (last log)) + 5 * Second)"
    by auto
  have ne: "log \<noteq> []"
    using f by (cases ok) (auto simp: Minute_def Second_def split: if_splits)
  have h: "fst (hd log) = start"
    using paced_hd [OF p ne] .
  have i: "fst (log ! i) < start + 5 * Minute
         \<and> fst (snd (log ! i)) = fst (log ! i) + min (fst (podsGet w i)) (10 * Second)
         \<and> snd (snd (log ! i)) = (fst (podsGet w i) < 10 * Second \<and> snd (podsGet w i) \<noteq> None)
         \<and> (Suc i < length log \<longrightarrow>
              \<not> snd (snd (log ! i))
              \<and> fst (log ! Suc i) = fst (snd (log ! i)) + 5 * Second
              \<and> fst (log ! i) + 5 * Second \<le> fst (log ! Suc i)
              \<and> fst (log ! Suc i) \<le> fst (log ! i) + 15 * Second)"
    if "i < length log" for i
  proof -
    from paced_nth [OF p that] have
      1: "fst (log ! i) < start + 5 * Minute"
      and 2: "fst (snd (log ! i)) = fst (log ! i) + fst (getPodDetails w i)"
      and 3: "snd (snd (log ! i)) = (snd (getPodDetails w i) \<noteq> None)"
      and 4: "Suc i < length log \<longrightarrow>
                \<not> snd (snd (log ! i)) \<and> fst (log ! Suc i) = fst (snd (log ! i)) + 5 * Second"
      by auto
    from getPodDetails_podsGet [of w i] have
      5: "fst (getPodDetails w i) = min (fst (podsGet w i)) (10 * Second)"
      and 6: "(snd (getPodDetails w i) \<noteq> None) = (fst (podsGet w i) < 10 * Second \<and> snd (podsGet w i) \<noteq> None)"
      by simp_all
    have 7: "Suc i < length log \<longrightarrow>
               fst (log ! i) + 5 * Second \<le> fst (log ! Suc i)
               \<and> fst (log ! Suc i) \<le> fst (log ! i) + 15 * Second"
      using 2 4 5 by auto
    have 8: "fst (snd (log ! i)) = fst (log ! i) + min (fst (podsGet w i)) (10 * Second)"
      using 2 5 by simp
    have 9: "snd (snd (log ! i)) = (fst (podsGet w i) < 10 * Second \<and> snd (podsGet w i) \<noteq> None)"
      using 3 6 by simp
    from 1 8 9 4 7 show ?thesis by blast
  qed
  have a: "\<forall>i<length log.
           fst (log ! i) < start + 5 * Minute
         \<and> fst (snd (log ! i)) = fst (log ! i) + min (fst (podsGet w i)) (10 * Second)
         \<and> snd (snd (log ! i)) = (fst (podsGet w i) < 10 * Second \<and> snd (podsGet w i) \<noteq> None)
         \<and> (Suc i < length log \<longrightarrow>
              \<not> snd (snd (log ! i))
              \<and> fst (log ! Suc i) = fst (snd (log ! i)) + 5 * Second
              \<and> fst (log ! i) + 5 * Second \<le> fst (log ! Suc i)
              \<and> fst (log ! Suc i) \<le> fst (log ! i) + 15 * Second)"
    using i by blast
  have m: "main ext w start podID namespaceID =
             (if ok then (if fst (podsGet w (length log)) < 10 * Second
                          then (case snd (podsGet w (length log)) of
                                  None \<Rightarrow> (Exit 2, [], [])
                                | Some pod \<Rightarrow> launch ext w pod)
                          else (Exit 2, [], []))
              else (Exit 1, [], []))"
    using assms n
    by (cases "podsGet w (length log)") (simp add: main_def getPodDetails_def)
  have c: "20 \<le> length log \<and> length log \<le> 60" if "\<not> ok"
  proof -
    let ?m = "length log - 1"
    from ne have ml: "?m < length log" by (cases log) auto
    from ne have la: "last log = log ! ?m" by (rule last_conv_nth)
    from paced_bounds [OF p ml] have
      lo: "start + 5 * Second * ?m \<le> fst (log ! ?m)"
      and hi: "fst (log ! ?m) \<le> start + 15 * Second * ?m" by simp_all
    from i [OF ml] have bd: "fst (log ! ?m) < start + 5 * Minute"
      and en: "fst (snd (log ! ?m)) \<le> fst (log ! ?m) + 10 * Second"
      by auto
    from that f ne la have nw: "start + 5 * Minute \<le> fst (snd (log ! ?m)) + 5 * Second"
      by auto
    from lo bd have "?m < 60" by (simp add: Minute_def Second_def)
    moreover from hi en nw have "19 \<le> ?m" by (simp add: Minute_def Second_def)
    ultimately show ?thesis using ml by linarith
  qed
  have b: "if ok
        then snd (snd (last log)) \<and> now = fst (snd (last log))
             \<and> main ext w start podID namespaceID =
                 (if fst (podsGet w (length log)) < 10 * Second
                  then (case snd (podsGet w (length log)) of
                          None \<Rightarrow> (Exit 2, [], [])
                        | Some pod \<Rightarrow> launch ext w pod)
                  else (Exit 2, [], []))
        else (\<forall>p\<in>set log. \<not> snd (snd p))
             \<and> now = fst (snd (last log)) + 5 * Second \<and> start + 5 * Minute \<le> now
             \<and> 20 \<le> length log \<and> length log \<le> 60
             \<and> main ext w start podID namespaceID = (Exit 1, [], [])"
    using f m ne c by (cases ok) simp_all
  from n ne h a b show ?thesis by (intro conjI)
qed

lemma acquire_flaky:
  "acquire_pod_loop flaky (0 + 5 * Minute) 0 0 [] =
     (True, 31000000000, 3,
      [(0, 10000000000, False), (15000000000, 25000000000, False), (30000000000, 31000000000, True)])"
  by (simp add: acquire_pod_loop.simps flaky_def calm_def getPodDetails_def Second_def Minute_def)

lemma never_answered:
  "\<forall>k. snd (getPodDetails w k) = None \<Longrightarrow> fst (acquire_pod_loop w deadline now n log) = False"
proof (induction w deadline now n log rule: acquire_pod_loop.induct)
  case (1 w deadline now n log)
  show ?case
  proof (cases "deadline \<le> now")
    case True
    then show ?thesis by (simp add: acquire_pod_loop.simps [of w deadline now n log])
  next
    case False
    obtain d r where g: "getPodDetails w n = (d, r)" by (cases "getPodDetails w n")
    with "1.prems" have r: "r = None" by (metis snd_conv)
    from "1.IH" [OF False g [symmetric] r "1.prems"] False g r show ?thesis
      by (simp add: acquire_pod_loop.simps [of w deadline now n log])
  qed
qed

theorem pod_acquisition_witness:
  "acquire_pod_loop flaky (0 + 5 * Minute) 0 0 [] =
     (True, 31000000000, 3,
      [(0, 10000000000, False), (15000000000, 25000000000, False), (30000000000, 31000000000, True)])
   \<and> main (layout ''/k8s'' 0 0) flaky 0 ''demo'' ''default'' = launch (layout ''/k8s'' 0 0) flaky demo
   \<and> main (layout ''/k8s'' 0 0) silent 0 ''demo'' ''default'' = (Exit 1, [], [])
   \<and> 20 \<le> length (snd (snd (snd (acquire_pod_loop silent (0 + 5 * Minute) 0 0 []))))
   \<and> length (snd (snd (snd (acquire_pod_loop silent (0 + 5 * Minute) 0 0 [])))) \<le> 60"
proof -
  have c: "kubeconfigOk flaky" "clientsetOk flaky" "kubeconfigOk silent" "clientsetOk silent"
    by (simp_all add: flaky_def silent_def calm_def)
  have f: "''demo'' \<noteq> ''''" "''default'' \<noteq> ''''" by simp_all
  have g: "podsGet flaky (Suc (Suc (Suc 0))) = (Second, Some demo)"
    by (simp add: flaky_def calm_def)
  have "\<forall>k. snd (getPodDetails silent k) = None"
    by (simp add: getPodDetails_def silent_def calm_def Second_def)
  then have n: "\<not> fst (acquire_pod_loop silent (0 + 5 * Minute) 0 0 [])"
    using never_answered by simp
  let ?A = "acquire_pod_loop silent (0 + 5 * Minute) 0 0 []"
  have s: "?A = (fst ?A, fst (snd ?A), fst (snd (snd ?A)), snd (snd (snd ?A)))" by simp
  have 1: "main (layout ''/k8s'' 0 0) flaky 0 ''demo'' ''default'' = launch (layout ''/k8s'' 0 0) flaky demo"
    using pod_acquisition [OF acquire_flaky f c(1,2), of "layout ''/k8s'' 0 0",
        THEN conjunct2, THEN conjunct2, THEN conjunct2, THEN conjunct2]
    by (simp add: g Second_def)
  have 2: "main (layout ''/k8s'' 0 0) silent 0 ''demo'' ''default'' = (Exit 1, [], [])
           \<and> 20 \<le> length (snd (snd (snd ?A))) \<and> length (snd (snd (snd ?A))) \<le> 60"
    using pod_acquisition [OF s f c(3,4), of "layout ''/k8s'' 0 0",
        THEN conjunct2, THEN conjunct2, THEN conjunct2, THEN conjunct2] n
    by simp
  from acquire_flaky 1 2 show ?thesis by simp
qed

text \<open>
  The requests do not begin every 5 seconds: with an API whose first two requests run
  into the 10 seconds, the requests begin at 0, 15 and 30 seconds.
\<close>

theorem poll_interval_counterexample:
  "acquire_pod_loop flaky (0 + 5 * Minute) 0 0 [] =
     (True, 31 * Second, 3,
      [(0, 10 * Second, False), (15 * Second, 25 * Second, False), (30 * Second, 31 * Second, True)])
   \<and> 15 * Second \<noteq> 0 + 5 * Second \<and> 30 * Second \<noteq> 15 * Second + 5 * Second"
  using acquire_flaky by (simp add: Second_def)

section \<open>Runs in which the program leaves its documented behaviour\<close>

text \<open>
  C1 at the inputs where the code leaves it. With \<^verbatim>\<open>KUBEDNS_IP\<close> not set, \<^verbatim>\<open>prepareDNS\<close>
  fails after creating \<^verbatim>\<open>/scratch/etc\<close>; \<^verbatim>\<open>main\<close> logs the error and returns, and the
  process ends with status 0. With an init container that exits with code 1, \<^verbatim>\<open>main\<close>
  again logs and returns: status 0.
\<close>

theorem exit_status_after_failure:
  "main (layout ''/k8s'' 0 0) noDNS 0 ''demo'' ''default'' = (Exit 0, [EvMkdirAll ''/scratch/etc''], [])
   \<and> fst (main (layout ''/k8s'' 0 0) failing 0 ''demo'' ''default'') = Exit 0
   \<and> lifecycle (fst (snd (main (layout ''/k8s'' 0 0) failing 0 ''demo'' ''default'')))
       = [Started ''prep'', Exited ''prep'' 1]"
  by (simp add: main_def acquire_pod_loop.simps getPodDetails_def Second_def Minute_def
      launch_def prepareContainers_def prepareDNS_def announceIP_def cleanEnvironment_def
      envVars_def noDNS_def failing_def calm_def layout_def Let_def demo_def handleInitContainers_def
      initContainerStep_def envFileHandling_def fileExists_def statEvents_def prep_def lifecycle_append)

text \<open>
  C3 at the input where the code leaves it. The init container \<open>prep\<close> starts and exits
  with code 1; \<^verbatim>\<open>cmd.Run\<close> returns an error, the function returns, and the events end
  with the exit of the child: no exit-code file is written.
\<close>

theorem init_exit_code_not_written:
  "handleInitContainers (layout ''/k8s'' 0 0) failing demo True [] =
     (Return (Some ErrInitContainerFailed),
      [EvStat ''/k8s/default/demo/prep/.env'', EvStat ''/k8s/default/demo/prep/.env'',
       EvWriteFile IdFile ''/k8s/default/demo/prep/.id'' ''pid://100'',
       EvCreate ''/k8s/default/demo/prep/.logs'',
       EvStart ''prep''
         [''--quiet'', ''exec'', ''--cleanenv'', ''--writable-tmpfs'', ''--no-mount'', ''home'',
          ''--unsquash'', ''--bind'',
          ''/scratch/etc/resolv.conf:/etc/resolv.conf,/scratch/etc/hosts:/etc/hosts'',
          ''/k8s/images/busybox.sif'', ''/bin/false''],
       EvExit ''prep'' 1])"
  by (simp add: handleInitContainers_def initContainerStep_def envFileHandling_def fileExists_def
      statEvents_def failing_def calm_def layout_def demo_def prep_def Let_def isDebug_def
      initApptainerArgs_def bindsOf_def initialArgs_def apptainerVerbosity_def executionMode_def
      dnsBind_def appendSecurity_def appendRest_def elems_def Itoa_def digits.simps)

text \<open>
  C2 at the input where the code leaves it. The runtime cannot be started. The loop of
  \<^verbatim>\<open>handleContainers\<close> spawns the task of \<open>app\<close>; the task creates the log file, fails to
  start the child, and panics at \<^verbatim>\<open>cmd.Process.Pid\<close> instead of returning.
\<close>

theorem start_failure_panics:
  "handleContainers (layout ''/k8s'' 0 0) noRuntime demo True [] =
     (Return None,
      [EvStat ''/k8s/default/demo/app/.env'', EvStat ''/k8s/default/demo/app/.env'',
       EvGo ''app'' (mainApptainerArgs (layout ''/k8s'' 0 0) False True demo app False)],
      [(app, mainApptainerArgs (layout ''/k8s'' 0 0) False True demo app False)])
   \<and> mainContainerTask (layout ''/k8s'' 0 0) noRuntime demo
        (app, mainApptainerArgs (layout ''/k8s'' 0 0) False True demo app False) []
       = (Panic, [EvCreate ''/k8s/default/demo/app/.logs''])"
proof -
  have n: "cName app = ''app''" by (simp add: app_def)
  have c: "Containers demo = [app]" by (simp add: demo_def)
  have p: "podNamespace demo = ''default''" "podName demo = ''demo''" by (simp_all add: demo_def)
  show ?thesis
    by (simp add: handleContainers_def mainContainerStep_def envFileHandling_def fileExists_def
        statEvents_def mainContainerTask_def noRuntime_def calm_def layout_def Let_def isDebug_def
        n c p)
qed

text \<open>
  C7 at an input where the code leaves it: namespace \<^verbatim>\<open>default\<close>, \<^verbatim>\<open>KUBEDNS_IP\<close> set to
  \<^verbatim>\<open>10.0.0.10\<close>. The content written to \<^verbatim>\<open>/scratch/etc/resolv.conf\<close> has three lines, and
  the second and the third begin with a tab: no line is \<^verbatim>\<open>nameserver 10.0.0.10\<close>, and no
  line begins with the keyword \<^verbatim>\<open>nameserver\<close>.
\<close>

theorem resolv_conf_nameserver_indented:
  "EvWriteFile ResolvConf ''/scratch/etc/resolv.conf'' (resolvConfContent ''default'' ''10.0.0.10'')
     \<in> set (snd (prepareDNS calm demo []))
   \<and> Lines (resolvConfContent ''default'' ''10.0.0.10'') =
       [''search default.svc.cluster.local svc.cluster.local cluster.local'',
        CHR 0x09 # ''nameserver 10.0.0.10'',
        CHR 0x09 # ''options ndots:5'']
   \<and> ''nameserver 10.0.0.10'' \<notin> set (Lines (resolvConfContent ''default'' ''10.0.0.10''))
   \<and> filter (prefix ''nameserver'') (Lines (resolvConfContent ''default'' ''10.0.0.10'')) = []"
proof -
  have l: "Lines (resolvConfContent ''default'' ''10.0.0.10'') =
       [''search default.svc.cluster.local svc.cluster.local cluster.local'',
        CHR 0x09 # ''nameserver 10.0.0.10'',
        CHR 0x09 # ''options ndots:5'']"
    by (simp add: Lines_def resolvConfContent_def)
  have w: "EvWriteFile ResolvConf ''/scratch/etc/resolv.conf'' (resolvConfContent ''default'' ''10.0.0.10'')
     \<in> set (snd (prepareDNS calm demo []))"
    by (simp add: prepareDNS_def calm_def demo_def Let_def)
  show ?thesis
    unfolding l using w by simp
qed

end
